(* ===== verification/Py_Prelude.thy ===== *)
theory Py_Prelude
  imports Complex_Main "HOL-Library.Word"
begin

text \<open>
  Shared vocabulary of the development: the Python exceptions the sources raise, a
  state-and-exception monad for code that mutates objects and may raise, Python's
  bounds-checked list reading and writing, and the \<open>for k in range(n)\<close> loop over a
  fallible body as structural recursion. The lemmas here are the generic facts the component theories use:
  the monad laws as simplification rules, and the equivalence of a loop whose body
  writes position \<open>k\<close> of a list with a plain \<open>map\<close> over the indices.
\<close>

named_theorems py_simps "unfolding rules of the Python execution model"

section \<open>Exceptions\<close>

text \<open>The exception classes raised by \<open>src/pyrand.py\<close> and \<open>src/otp.py\<close> and the
  library calls they make.\<close>

datatype error = RuntimeError | ValueError | TypeError | IndexError | AssertionError

section \<open>Fallible pure computations\<close>

type_synonym 'a res = "error + 'a"

definition ebind :: "'a res \<Rightarrow> ('a \<Rightarrow> 'b res) \<Rightarrow> 'b res" where
  "ebind m f = (case m of Inl e \<Rightarrow> Inl e | Inr x \<Rightarrow> f x)"

lemma ebind_simps [simp, py_simps]:
  "ebind (Inl e) f = Inl e"
  "ebind (Inr x) f = f x"
  by (simp_all add: ebind_def)

lemma ebind_eq_Inr [simp]:
  "ebind m f = Inr y \<longleftrightarrow> (\<exists>x. m = Inr x \<and> f x = Inr y)"
  by (cases m) simp_all

text \<open>Python's \<open>xs[k]\<close> and \<open>xs[k] = v\<close> for \<open>0 \<le> k\<close>: IndexError out of range.\<close>

definition py_index :: "'a list \<Rightarrow> nat \<Rightarrow> 'a res" where
  "py_index xs k = (if k < length xs then Inr (xs ! k) else Inl IndexError)"

definition py_store :: "'a list \<Rightarrow> nat \<Rightarrow> 'a \<Rightarrow> 'a list res" where
  "py_store xs k v = (if k < length xs then Inr (xs[k := v]) else Inl IndexError)"

lemma py_index_in [simp]: "k < length xs \<Longrightarrow> py_index xs k = Inr (xs ! k)"
  by (simp add: py_index_def)

lemma py_store_in [simp]: "k < length xs \<Longrightarrow> py_store xs k v = Inr (xs[k := v])"
  by (simp add: py_store_def)

lemma nth_list_update_any: "r < length h \<Longrightarrow> h[a := x] ! r = (if a = r then x else h ! r)"
  by (cases "a = r") simp_all

text \<open>A list comprehension whose element expression may raise: the first exception
  propagates.\<close>

fun py_map :: "('a \<Rightarrow> 'b res) \<Rightarrow> 'a list \<Rightarrow> 'b list res" where
  "py_map f [] = Inr []"
| "py_map f (x # xs) = ebind (f x) (\<lambda>y. ebind (py_map f xs) (\<lambda>ys. Inr (y # ys)))"

lemma py_map_total:
  "(\<And>x. x \<in> set xs \<Longrightarrow> f x = Inr (g x)) \<Longrightarrow> py_map f xs = Inr (map g xs)"
  by (induction xs) simp_all

section \<open>The for loop\<close>

text \<open>\<open>for k in ks: body\<close>, the body threading a local value and possibly raising.\<close>

fun py_for :: "(nat \<Rightarrow> 'a \<Rightarrow> 'a res) \<Rightarrow> nat list \<Rightarrow> 'a \<Rightarrow> 'a res" where
  "py_for body [] acc = Inr acc"
| "py_for body (k # ks) acc = ebind (body k acc) (py_for body ks)"

lemma py_for_append:
  "py_for body (ks @ ls) acc = ebind (py_for body ks acc) (py_for body ls)"
  by (induction ks arbitrary: acc) (simp_all add: ebind_def split: sum.splits)

lemma ebind_Inr_right [simp]: "ebind r Inr = r"
  by (cases r) simp_all

text \<open>
  The loops of \<open>src/pyrand.py\<close> all write one position \<open>k\<close> of a list of the loop's
  length, with a value computed from index \<open>k\<close> and the old entry. Such a loop over
  \<open>range(n)\<close> never raises and computes a \<open>map\<close> over the indices.
\<close>

definition pointwise :: "(nat \<Rightarrow> 'a \<Rightarrow> 'a) \<Rightarrow> 'a list \<Rightarrow> 'a list" where
  "pointwise h xs = map (\<lambda>k. h k (xs ! k)) [0..<length xs]"

lemma length_pointwise [simp]: "length (pointwise h xs) = length xs"
  by (simp add: pointwise_def)

lemma nth_pointwise [simp]: "k < length xs \<Longrightarrow> pointwise h xs ! k = h k (xs ! k)"
  by (simp add: pointwise_def)

lemma py_for_pointwise_prefix:
  assumes body: "\<And>k acc. k < length xs \<Longrightarrow> length acc = length xs \<Longrightarrow>
                   body k acc = Inr (acc[k := h k (acc ! k)])"
    and "m \<le> length xs"
  shows "py_for body [0..<m] xs =
           Inr (map (\<lambda>k. if k < m then h k (xs ! k) else xs ! k) [0..<length xs])"
  using assms(2)
proof (induction m)
  case 0
  show ?case by (simp add: map_nth)
next
  case (Suc m)
  let ?ys = "map (\<lambda>k. if k < m then h k (xs ! k) else xs ! k) [0..<length xs]"
  have "py_for body [0..<Suc m] xs = ebind (Inr ?ys) (py_for body [m])"
    using Suc by (simp add: py_for_append)
  also have "\<dots> = Inr (?ys[m := h m (?ys ! m)])"
    using Suc.prems by (simp add: body)
  also have "?ys[m := h m (?ys ! m)] =
               map (\<lambda>k. if k < Suc m then h k (xs ! k) else xs ! k) [0..<length xs]"
    using Suc.prems by (intro nth_equalityI) (auto simp: nth_list_update)
  finally show ?case .
qed

lemma py_for_pointwise:
  assumes "\<And>k acc. k < length xs \<Longrightarrow> length acc = length xs \<Longrightarrow>
             body k acc = Inr (acc[k := h k (acc ! k)])"
  shows "py_for body [0..<length xs] xs = Inr (pointwise h xs)"
  using py_for_pointwise_prefix [OF assms, where m = "length xs"]
  by (simp add: pointwise_def cong: map_cong)

section \<open>State and exceptions\<close>

text \<open>
  A statement sequence that reads and writes a state \<open>'s\<close> (the interpreter's objects)
  and may raise: the outcome and the state after it. An exception keeps the writes
  made before it, as in Python.
\<close>

type_synonym ('s, 'a) py = "'s \<Rightarrow> 'a res \<times> 's"

definition py_return :: "'a \<Rightarrow> ('s, 'a) py" where
  "py_return x s = (Inr x, s)"

definition py_raise :: "error \<Rightarrow> ('s, 'a) py" where
  "py_raise e s = (Inl e, s)"

definition py_lift :: "'a res \<Rightarrow> ('s, 'a) py" where
  "py_lift r s = (r, s)"

definition py_bind :: "('s, 'a) py \<Rightarrow> ('a \<Rightarrow> ('s, 'b) py) \<Rightarrow> ('s, 'b) py" where
  "py_bind m f s = (case m s of (Inl e, s') \<Rightarrow> (Inl e, s') | (Inr x, s') \<Rightarrow> f x s')"

definition py_assert :: "bool \<Rightarrow> ('s, unit) py" where
  "py_assert b = (if b then py_return () else py_raise AssertionError)"

lemmas py_monad_defs [py_simps] = py_return_def py_raise_def py_lift_def py_bind_def py_assert_def

lemma py_bind_return [simp]: "py_bind (py_return x) f = f x"
  by (simp add: py_bind_def py_return_def fun_eq_iff)

lemma py_bind_raise [simp]: "py_bind (py_raise e) f = py_raise e"
  by (simp add: py_bind_def py_raise_def fun_eq_iff)

lemma py_bind_lift_Inr [simp]: "py_bind (py_lift (Inr x)) f = f x"
  by (simp add: py_bind_def py_lift_def fun_eq_iff)

lemma py_bind_assoc [simp]:
  "py_bind (py_bind m f) g = py_bind m (\<lambda>x. py_bind (f x) g)"
  by (simp add: py_bind_def fun_eq_iff split: prod.splits sum.splits)

lemma py_bind_apply:
  "m s = (Inr x, s') \<Longrightarrow> py_bind m f s = f x s'"
  by (simp add: py_bind_def)

lemma py_bind_apply_err:
  "m s = (Inl e, s') \<Longrightarrow> py_bind m f s = (Inl e, s')"
  by (simp add: py_bind_def)

lemma py_bind_Inl: "fst (m s) = Inl e \<Longrightarrow> py_bind m f s = (Inl e, snd (m s))"
  by (cases "m s") (simp add: py_bind_def)

lemma py_bind_return_fst:
  "fst (py_bind m (\<lambda>x. py_return (g x)) s) = (case fst (m s) of Inl e \<Rightarrow> Inl e | Inr x \<Rightarrow> Inr (g x))"
  by (simp add: py_bind_def py_return_def split: prod.splits sum.splits)

lemma py_bind_return_Inr:
  "py_bind m (\<lambda>x. py_return (g x)) s = (Inr v, s') \<longleftrightarrow> (\<exists>x. m s = (Inr x, s') \<and> v = g x)"
  by (auto simp: py_bind_def py_return_def split: prod.splits sum.splits)

end
