(* ===== verification/Bits.thy ===== *)
theory Bits
  imports Py_Prelude
begin

text \<open>
  The part of the \<open>bitarray\<close> library that \<open>src/pyrand.py\<close> and \<open>src/otp.py\<close> use, on
  big-endian bit arrays (\<open>bitarray(endian='big')\<close>): a bit array is a \<open>bool list\<close>;
  \<open>frombytes\<close> appends the bits of each byte, most significant first; reading a bit
  array as bytes (its buffer, as \<open>bytearray(a)\<close> does) packs groups of eight bits,
  zero-padding the last; \<open>&\<close>, \<open>|\<close>, \<open>^\<close> raise ValueError on operands of
  different lengths; \<open>~\<close> negates every bit. The library is not code of the
  repository: these definitions follow its documented behaviour. The lemmas are the
  byte/bit conversions and the correspondence of bitwise XOR on bits and on bytes.
\<close>

unbundle bit_operations_syntax

type_synonym byte = "8 word"

section \<open>Bytes and bits\<close>

definition bits_of_byte :: "byte \<Rightarrow> bool list" where
  "bits_of_byte w = map (bit w) (rev [0..<8])"

definition frombytes :: "byte list \<Rightarrow> bool list" where
  "frombytes bs = concat (map bits_of_byte bs)"

definition byte_of_bits :: "bool list \<Rightarrow> byte" where
  "byte_of_bits bs = horner_sum of_bool 2 (rev bs)"

fun tobytes :: "bool list \<Rightarrow> byte list" where
  "tobytes bs =
     (if bs = [] then []
      else byte_of_bits (take 8 bs @ replicate (8 - length bs) False) # tobytes (drop 8 bs))"

declare tobytes.simps [simp del]

section \<open>Bitwise operators\<close>

definition ba_binop :: "(bool \<Rightarrow> bool \<Rightarrow> bool) \<Rightarrow> bool list \<Rightarrow> bool list \<Rightarrow> bool list res" where
  "ba_binop f a b = (if length a = length b then Inr (map2 f a b) else Inl ValueError)"

definition ba_and :: "bool list \<Rightarrow> bool list \<Rightarrow> bool list res" where
  "ba_and = ba_binop (\<and>)"

definition ba_or :: "bool list \<Rightarrow> bool list \<Rightarrow> bool list res" where
  "ba_or = ba_binop (\<or>)"

definition ba_xor :: "bool list \<Rightarrow> bool list \<Rightarrow> bool list res" where
  "ba_xor = ba_binop (\<noteq>)"

definition ba_invert :: "bool list \<Rightarrow> bool list" where
  "ba_invert a = map Not a"

section \<open>Lengths\<close>

lemma length_bits_of_byte [simp]: "length (bits_of_byte w) = 8"
  by (simp add: bits_of_byte_def)

lemma length_frombytes [simp]: "length (frombytes bs) = 8 * length bs"
  by (induction bs) (simp_all add: frombytes_def)

lemma frombytes_simps [simp]:
  "frombytes [] = []"
  "frombytes (w # ws) = bits_of_byte w @ frombytes ws"
  by (simp_all add: frombytes_def)

lemma ba_binop_same_length [simp]:
  "length a = length b \<Longrightarrow> ba_binop f a b = Inr (map2 f a b)"
  by (simp add: ba_binop_def)

lemma ba_binop_Inr_length:
  "ba_binop f a b = Inr c \<Longrightarrow> length c = length a"
  by (auto simp: ba_binop_def split: if_splits)

section \<open>Round trips\<close>

lemma byte_of_bits_of_byte [simp]: "byte_of_bits (bits_of_byte w) = w"
proof -
  have "rev (bits_of_byte w) = map (bit w) [0..<8]"
    by (simp add: bits_of_byte_def rev_map)
  then show ?thesis
    using take_bit_length_eq [where 'a = 8]
    by (simp add: byte_of_bits_def horner_sum_bit_eq_take_bit)
qed

lemma bits_of_byte_of_bits:
  assumes "length bs = 8"
  shows "bits_of_byte (byte_of_bits bs) = bs"
proof (rule nth_equalityI)
  fix k assume "k < length (bits_of_byte (byte_of_bits bs))"
  then have k: "k < 8" by simp
  have "bits_of_byte (byte_of_bits bs) ! k = bit (byte_of_bits bs) (7 - k)"
    using k by (simp add: bits_of_byte_def rev_nth)
  also have "\<dots> = rev bs ! (7 - k)"
    using k assms by (auto simp: byte_of_bits_def bit_horner_sum_bit_word_iff)
  also have "\<dots> = bs ! k"
    using k assms by (simp add: rev_nth)
  finally show "bits_of_byte (byte_of_bits bs) ! k = bs ! k" .
qed (simp add: assms)

lemma bits_of_byte_not_Nil [simp]: "bits_of_byte w \<noteq> []"
  by (simp add: bits_of_byte_def)

lemma tobytes_append_byte:
  "tobytes (bits_of_byte w @ bs) = w # tobytes bs"
  by (subst tobytes.simps) simp

lemma tobytes_frombytes: "tobytes (frombytes ws) = ws"
proof (induction ws)
  case Nil
  show ?case by (simp add: tobytes.simps)
next
  case (Cons w ws)
  then show ?case by (simp add: tobytes_append_byte)
qed

lemma length_tobytes_mult8: "length bs = 8 * n \<Longrightarrow> length (tobytes bs) = n"
proof (induction n arbitrary: bs)
  case 0
  then show ?case by (simp add: tobytes.simps)
next
  case (Suc n)
  then have "length (drop 8 bs) = 8 * n" and "bs \<noteq> []" by auto
  with Suc.IH show ?case by (subst tobytes.simps) simp
qed

lemma frombytes_tobytes: "length bs = 8 * n \<Longrightarrow> frombytes (tobytes bs) = bs"
proof (induction n arbitrary: bs)
  case 0
  then show ?case by (simp add: tobytes.simps)
next
  case (Suc n)
  then have l: "length (drop 8 bs) = 8 * n" "length (take 8 bs) = 8" and "bs \<noteq> []" by auto
  then have "frombytes (tobytes bs) = take 8 bs @ frombytes (tobytes (drop 8 bs))"
    by (subst tobytes.simps) (simp add: bits_of_byte_of_bits)
  with Suc.IH [OF l(1)] show ?case by simp
qed

section \<open>XOR on bits and on bytes\<close>

lemma byte_of_bits_xor:
  assumes "length a = 8" "length b = 8"
  shows "byte_of_bits (map2 (\<noteq>) a b) = byte_of_bits a XOR byte_of_bits b"
proof (rule bit_word_eqI)
  fix n assume "n < LENGTH(8)"
  with assms show "bit (byte_of_bits (map2 (\<noteq>) a b)) n = bit (byte_of_bits a XOR byte_of_bits b) n"
    by (simp add: byte_of_bits_def bit_horner_sum_bit_word_iff bit_xor_iff rev_nth rev_map [symmetric]
        zip_rev [symmetric])
qed

lemma tobytes_xor:
  "length a = 8 * n \<Longrightarrow> length b = 8 * n \<Longrightarrow>
     tobytes (map2 (\<noteq>) a b) = map2 (XOR) (tobytes a) (tobytes b)"
proof (induction n arbitrary: a b)
  case 0
  then show ?case by (simp add: tobytes.simps)
next
  case (Suc n)
  then have "a \<noteq> []" "b \<noteq> []" "length (drop 8 a) = 8 * n" "length (drop 8 b) = 8 * n"
    by auto
  moreover have "take 8 (map2 (\<noteq>) a b) = map2 (\<noteq>) (take 8 a) (take 8 b)"
    and "drop 8 (map2 (\<noteq>) a b) = map2 (\<noteq>) (drop 8 a) (drop 8 b)"
    by (simp_all add: take_map drop_map take_zip drop_zip)
  ultimately show ?case
    using Suc byte_of_bits_xor [of "take 8 a" "take 8 b"] by (subst (1 2 3) tobytes.simps) simp
qed

lemma xor_bits_cancel: "length a = length k \<Longrightarrow> map2 (\<noteq>) (map2 (\<noteq>) a k) k = a"
  by (induction a k rule: list_induct2) auto

end
