(* ===== verification/Entropy.thy ===== *)
theory Entropy
  imports Py_Prelude
begin

text \<open>
  The per-bit entropy functions of \<open>src/pyrand.py\<close> (\<open>shannon_entropy\<close>,
  \<open>min_entropy\<close>). Python floats are modelled as reals, and \<open>math.log(x, 2)\<close> as
  \<open>log 2 x\<close>, raising ValueError for \<open>x \<le> 0\<close> as the library does. The spec states
  the two measures by formulas (\<open>H_min\<close>, \<open>H_shannon\<close> below); the lemmas show that
  the code computes exactly these formulas (the minimum entropy for every real input,
  the Shannon entropy on \<open>[0, 1]\<close>), and the bounds the consumers rely on.
\<close>

section \<open>The code\<close>

definition math_log2 :: "real \<Rightarrow> real res" where
  "math_log2 x = (if x \<le> 0 then Inl ValueError else Inr (log 2 x))"

definition shannon_entropy :: "real \<Rightarrow> real res" where
  "shannon_entropy pr =
     (if pr = 0 \<or> 1 - pr = 0 then Inr 0
      else ebind (math_log2 pr) (\<lambda>a. ebind (math_log2 (1 - pr)) (\<lambda>b.
             Inr (-1 * (pr * a + (1 - pr) * b)))))"

definition min_entropy :: "real \<Rightarrow> real res" where
  "min_entropy pr =
     (if pr = 0 \<or> 1 - pr = 0 then Inr 0
      else if pr > 1/2 then ebind (math_log2 pr) (\<lambda>a. Inr (-1 * a))
      else ebind (math_log2 (1 - pr)) (\<lambda>a. Inr (-1 * a)))"

section \<open>The formulas of the spec\<close>

definition H_min :: "real \<Rightarrow> real" where
  "H_min p = - log 2 (max p (1 - p))"

definition H_shannon :: "real \<Rightarrow> real" where
  "H_shannon p = (if p = 0 \<or> p = 1 then 0 else - (p * log 2 p + (1 - p) * log 2 (1 - p)))"

lemma math_log2_pos [simp]: "0 < x \<Longrightarrow> math_log2 x = Inr (log 2 x)"
  by (simp add: math_log2_def)

section \<open>Shared facts on the logarithm\<close>

lemma log2_nonpos: "0 < x \<Longrightarrow> x \<le> 1 \<Longrightarrow> log 2 x \<le> 0"
  by simp

lemma log2_half [simp]: "log 2 (1/2) = -1"
  by (simp add: log_divide)

lemma log2_ge_minus_one: "1/2 \<le> x \<Longrightarrow> -1 \<le> log 2 x"
proof -
  assume "1/2 \<le> x"
  then have "log 2 (1/2) \<le> log 2 x" by (subst log_le_cancel_iff) auto
  then show ?thesis by simp
qed

lemma max_compl_bounds:
  "0 \<le> p \<Longrightarrow> p \<le> 1 \<Longrightarrow> 1/2 \<le> max p (1 - p) \<and> max p (1 - p) \<le> (1::real)"
  by (auto simp: max_def)

section \<open>The code computes the formulas\<close>

lemma min_entropy_eq_H_min: "min_entropy p = Inr (H_min p)"
proof -
  consider "p = 0" | "p = 1" | "p \<noteq> 0" "p \<noteq> 1" "1/2 < p" | "p \<noteq> 0" "p \<noteq> 1" "\<not> 1/2 < p"
    by blast
  then show ?thesis
  proof cases
    case 1 then show ?thesis by (simp add: min_entropy_def H_min_def)
  next
    case 2 then show ?thesis by (simp add: min_entropy_def H_min_def)
  next
    case 3 then show ?thesis by (simp add: min_entropy_def H_min_def max_def)
  next
    case 4 then show ?thesis by (simp add: min_entropy_def H_min_def max_def)
  qed
qed

lemma H_min_bounds: "0 \<le> p \<Longrightarrow> p \<le> 1 \<Longrightarrow> 0 \<le> H_min p \<and> H_min p \<le> 1"
proof -
  assume "0 \<le> p" "p \<le> 1"
  then have m: "1/2 \<le> max p (1 - p)" "max p (1 - p) \<le> 1" using max_compl_bounds by blast+
  then have "log 2 (max p (1 - p)) \<le> 0" by (intro log2_nonpos) auto
  moreover have "-1 \<le> log 2 (max p (1 - p))" using m by (intro log2_ge_minus_one)
  ultimately show ?thesis by (simp add: H_min_def)
qed

lemma H_min_half: "H_min (1/2) = 1"
  by (simp add: H_min_def)

lemma H_min_zero_iff: "0 \<le> p \<Longrightarrow> p \<le> 1 \<Longrightarrow> H_min p = 0 \<longleftrightarrow> p = 0 \<or> p = 1"
  by (auto simp: H_min_def max_def log_def)

lemma H_min_sym: "H_min (1 - p) = H_min p"
  by (simp add: H_min_def max.commute)

lemma shannon_entropy_eq: "0 \<le> p \<Longrightarrow> p \<le> 1 \<Longrightarrow> shannon_entropy p = Inr (H_shannon p)"
  by (auto simp: shannon_entropy_def H_shannon_def)

lemma H_min_le_H_shannon: "0 \<le> p \<Longrightarrow> p \<le> 1 \<Longrightarrow> H_min p \<le> H_shannon p"
proof -
  assume p: "0 \<le> p" "p \<le> 1"
  show ?thesis
  proof (cases "p = 0 \<or> p = 1")
    case True then show ?thesis by (auto simp: H_min_def H_shannon_def)
  next
    case False
    with p have p': "0 < p" "p < 1" by auto
    let ?m = "max p (1 - p)"
    have "log 2 p \<le> log 2 ?m" using p' by (subst log_le_cancel_iff) auto
    moreover have "log 2 (1 - p) \<le> log 2 ?m" using p' by (subst log_le_cancel_iff) auto
    ultimately have "p * log 2 p + (1 - p) * log 2 (1 - p) \<le> p * log 2 ?m + (1 - p) * log 2 ?m"
      using p' by (intro add_mono mult_left_mono) auto
    then show ?thesis using False by (simp add: H_min_def H_shannon_def algebra_simps)
  qed
qed

lemma H_min_quarter_bounds: "3/8 < H_min (1/4) \<and> H_min (1/4) < 7/16"
proof -
  have h: "H_min (1/4) = log 2 (4/3)"
    by (simp add: H_min_def max_def log_divide)
  have "log 2 8 < log 2 ((4/3::real) ^ 8)" by (subst log_less_cancel_iff) (auto simp: power_divide)
  moreover have "log 2 (8::real) = 3" and "log 2 (128::real) = 7"
    using log_pow_cancel [of 2 3] log_pow_cancel [of 2 7] by simp_all
  ultimately have lo: "3 < 8 * log 2 (4/3)"
    by (simp add: log_nat_power)
  have "log 2 ((4/3::real) ^ 16) < log 2 128" by (subst log_less_cancel_iff) (auto simp: power_divide)
  with \<open>log 2 (128::real) = 7\<close> have hi: "16 * log 2 (4/3) < 7"
    by (simp add: log_nat_power)
  from lo hi show ?thesis by (simp add: h)
qed


lemma log2_lower: "0 < y \<Longrightarrow> (1 - 1 / y) / ln 2 \<le> log 2 y"
proof -
  assume y: "0 < y"
  have "ln (1 / y) \<le> 1 / y - 1" using y by (intro ln_le_minus_one) simp
  then have "1 - 1 / y \<le> ln y" using y by (simp add: ln_div)
  then show ?thesis by (simp add: log_def divide_right_mono)
qed

lemma H_shannon_le_one: "0 \<le> p \<Longrightarrow> p \<le> 1 \<Longrightarrow> H_shannon p \<le> 1"
proof -
  assume p: "0 \<le> p" "p \<le> 1"
  show ?thesis
  proof (cases "p = 0 \<or> p = 1")
    case True then show ?thesis by (auto simp: H_shannon_def)
  next
    case False
    with p have p': "0 < p" "0 < 1 - p" by auto
    have a: "p * ((1 - 1 / (2 * p)) / ln 2) \<le> p * log 2 (2 * p)"
      using p' log2_lower [of "2 * p"] by (intro mult_left_mono) auto
    have b: "(1 - p) * ((1 - 1 / (2 * (1 - p))) / ln 2) \<le> (1 - p) * log 2 (2 * (1 - p))"
      using p' log2_lower [of "2 * (1 - p)"] by (intro mult_left_mono) auto
    have "p * ((1 - 1 / (2 * p)) / ln 2) + (1 - p) * ((1 - 1 / (2 * (1 - p))) / ln 2) = 0"
      using p' by (simp add: field_simps)
    moreover have "log 2 (2 * p) = log 2 2 + log 2 p" "log 2 (2 * (1 - p)) = log 2 2 + log 2 (1 - p)"
      using p' log_mult_pos [where a = 2 and x = 2 and y = p]
        log_mult_pos [where a = 2 and x = 2 and y = "1 - p"] by simp_all
    ultimately have "0 \<le> p * (1 + log 2 p) + (1 - p) * (1 + log 2 (1 - p))"
      using a b by simp
    then show ?thesis using False by (simp add: H_shannon_def algebra_simps)
  qed
qed

section \<open>Properties of the entropy functions\<close>

text \<open>
  C11. \<open>min_entropy(pr)\<close> never raises and returns the spec's minimum entropy
  \<open>-log2 (max p (1 - p))\<close> for every real \<open>p\<close>: its special case for \<open>p \<in> {0, 1}\<close>
  and its branch on \<open>p > 0.5\<close> agree with the formula.
\<close>

theorem min_entropy_refines: "min_entropy p = Inr (- log 2 (max p (1 - p)))"
  using min_entropy_eq_H_min [of p] by (simp add: H_min_def)

text \<open>
  C20. For a probability \<open>p \<in> [0, 1]\<close>, \<open>min_entropy(p)\<close> lies in \<open>[0, 1]\<close>, is 0
  exactly when the bit is certain (\<open>p = 0\<close> or \<open>p = 1\<close>), and is 1 at \<open>p = 1/2\<close>.
\<close>

theorem min_entropy_bounds:
  "0 \<le> p \<Longrightarrow> p \<le> 1 \<Longrightarrow>
     \<exists>h. min_entropy p = Inr h \<and> 0 \<le> h \<and> h \<le> 1 \<and> (h = 0 \<longleftrightarrow> p = 0 \<or> p = 1) \<and>
         (p = 1/2 \<longrightarrow> h = 1)"
proof -
  assume p: "0 \<le> p" "p \<le> 1"
  have "p = 1/2 \<longrightarrow> H_min p = 1" using H_min_half by blast
  with p H_min_bounds [of p] H_min_zero_iff [of p] show ?thesis
    by (simp only: min_entropy_eq_H_min) blast
qed

theorem min_entropy_bounds_witness:
  "0 \<le> (1/4 :: real) \<and> (1/4 :: real) \<le> 1 \<and>
   (\<exists>h. min_entropy (1/4) = Inr h \<and> 0 \<le> h \<and> h \<le> 1 \<and> h \<noteq> 0)"
proof -
  have h: "0 \<le> (1/4 :: real)" "(1/4 :: real) \<le> 1" by simp_all
  from min_entropy_bounds [OF h] obtain x where
    "min_entropy (1/4) = Inr x" "0 \<le> x" "x \<le> 1" "x = 0 \<longleftrightarrow> (1/4 :: real) = 0 \<or> (1/4 :: real) = 1"
    by blast
  with h show ?thesis by auto
qed

text \<open>
  C21. For a probability \<open>p \<in> [0, 1]\<close>, neither entropy function raises, and
  \<open>0 \<le> min_entropy(p) \<le> shannon_entropy(p) \<le> 1\<close>: the minimum entropy the
  library reports is the more conservative measure.
\<close>

theorem min_le_shannon:
  "0 \<le> p \<Longrightarrow> p \<le> 1 \<Longrightarrow>
     \<exists>a b. min_entropy p = Inr a \<and> shannon_entropy p = Inr b \<and> 0 \<le> a \<and> a \<le> b \<and> b \<le> 1"
  using H_min_bounds [of p] H_min_le_H_shannon [of p] H_shannon_le_one [of p]
  by (simp add: min_entropy_eq_H_min shannon_entropy_eq)

theorem min_le_shannon_witness:
  "0 \<le> (1/4 :: real) \<and> (1/4 :: real) \<le> 1 \<and>
   (\<exists>a b. min_entropy (1/4) = Inr a \<and> shannon_entropy (1/4) = Inr b \<and> 0 \<le> a \<and> a \<le> b \<and> b \<le> 1)"
proof -
  have h: "0 \<le> (1/4 :: real)" "(1/4 :: real) \<le> 1" by simp_all
  show ?thesis using h min_le_shannon [OF h] by blast
qed

text \<open>
  C22. \<open>shannon_entropy(pr)\<close> outside \<open>[0, 1]\<close> raises ValueError from
  \<open>math.log\<close> of a negative number (unlike \<open>min_entropy\<close>, which never raises).
\<close>

theorem shannon_entropy_domain_error:
  "p < 0 \<or> 1 < p \<Longrightarrow> shannon_entropy p = Inl ValueError"
  by (auto simp: shannon_entropy_def math_log2_def)

theorem shannon_entropy_domain_error_witness:
  "((2 :: real) < 0 \<or> 1 < (2 :: real)) \<and> shannon_entropy 2 = Inl ValueError"
proof -
  have h: "(2 :: real) < 0 \<or> 1 < (2 :: real)" by simp
  show ?thesis using h shannon_entropy_domain_error [OF h] by blast
qed

end
