(* ===== verification/RandBytes.thy ===== *)
theory RandBytes
  imports Bits Entropy
begin

text \<open>
  The state of a run of \<open>src/pyrand.py\<close>: the \<open>RandBytes\<close> objects (an object store
  indexed by reference, so that Python's object identity \<open>id(x)\<close> is the index), the
  operating system's random byte stream read by \<open>os.urandom\<close>, and standard output.
  This theory holds the class's fields, its constructor and its read operations
  (\<open>__len__\<close>, \<open>entropy\<close>, \<open>unwrap\<close>), the object invariant, and the
  execution lemmas the operator theory builds on.
\<close>

section \<open>Objects and the interpreter state\<close>

type_synonym ref = nat

text \<open>The four attributes of a \<open>RandBytes\<close> object (\<open>src/pyrand.py\<close>, lines 14--18).\<close>

record randbytes =
  rb_wrapped :: bool
  rb_i :: "bool list"
  rb_n :: nat
  rb_pr_one :: "real list"

text \<open>Values the programs print or return.\<close>

datatype pyval = VInt nat | VReal real | VBits "bool list" | VBytes "byte list" | VRef ref | VNone

text \<open>
  \<open>rng\<close> is the byte stream \<open>os.urandom\<close> reads, fixed but arbitrary: every theorem
  holds for every stream; \<open>drawn\<close> counts the bytes read so far.
\<close>

record world =
  heap :: "randbytes list"
  rng :: "nat \<Rightarrow> byte"
  drawn :: nat
  stdout :: "(string \<times> pyval) list"

section \<open>Primitive state operations\<close>

definition os_urandom :: "int \<Rightarrow> (world, byte list) py" where
  "os_urandom n w =
     (if n < 0 then (Inl ValueError, w)
      else (Inr (map (\<lambda>k. rng w (drawn w + k)) [0..<nat n]), w\<lparr>drawn := drawn w + nat n\<rparr>))"

definition alloc :: "randbytes \<Rightarrow> (world, ref) py" where
  "alloc x w = (Inr (length (heap w)), w\<lparr>heap := heap w @ [x]\<rparr>)"

text \<open>Attribute access on a reference that is no \<open>RandBytes\<close> object fails as a call of a
  method the value does not have: TypeError.\<close>

definition get_obj :: "ref \<Rightarrow> (world, randbytes) py" where
  "get_obj r w = (if r < length (heap w) then (Inr (heap w ! r), w) else (Inl TypeError, w))"

definition put_obj :: "ref \<Rightarrow> randbytes \<Rightarrow> (world, unit) py" where
  "put_obj r x w =
     (if r < length (heap w) then (Inr (), w\<lparr>heap := (heap w)[r := x]\<rparr>) else (Inl TypeError, w))"

definition set_wrapped :: "ref \<Rightarrow> bool \<Rightarrow> (world, unit) py" where
  "set_wrapped r b = py_bind (get_obj r) (\<lambda>x. put_obj r (x\<lparr>rb_wrapped := b\<rparr>))"

definition py_print :: "string \<Rightarrow> pyval \<Rightarrow> (world, unit) py" where
  "py_print label v w = (Inr (), w\<lparr>stdout := stdout w @ [(label, v)]\<rparr>)"

section \<open>The constructor and the read operations\<close>

text \<open>\<open>RandBytes.__init__(n)\<close>: the bits of \<open>n\<close> fresh random bytes, every bit
  one with probability one half.\<close>

definition RandBytes :: "int \<Rightarrow> (world, ref) py" where
  "RandBytes n =
     py_bind (os_urandom n) (\<lambda>bs.
       alloc \<lparr>rb_wrapped = True, rb_i = frombytes bs, rb_n = nat n,
              rb_pr_one = replicate (nat n * 8) (1/2)\<rparr>)"

definition rb_len :: "ref \<Rightarrow> (world, nat) py" where
  "rb_len s =
     py_bind (get_obj s) (\<lambda>x.
       if \<not> rb_wrapped x then py_raise RuntimeError else py_return (rb_n x))"

definition rb_entropy :: "ref \<Rightarrow> (world, real) py" where
  "rb_entropy s =
     py_bind (get_obj s) (\<lambda>x.
       py_lift (ebind (py_map min_entropy (rb_pr_one x)) (\<lambda>hs. Inr (sum_list hs))))"

definition rb_unwrap :: "ref \<Rightarrow> (world, bool list) py" where
  "rb_unwrap s =
     py_bind (set_wrapped s False) (\<lambda>_.
       py_bind (get_obj s) (\<lambda>x. py_return (rb_i x)))"

section \<open>The object invariant\<close>

text \<open>
  Bits and probabilities have eight entries per byte, and every probability lies in
  \<open>[0, 1]\<close>. The invariant does not mention the flag: \<open>unwrap\<close> changes nothing else.
\<close>

definition wf_rb :: "randbytes \<Rightarrow> bool" where
  "wf_rb x \<longleftrightarrow>
     length (rb_i x) = 8 * rb_n x \<and> length (rb_pr_one x) = 8 * rb_n x \<and>
     (\<forall>p \<in> set (rb_pr_one x). 0 \<le> p \<and> p \<le> 1)"

definition wf_world :: "world \<Rightarrow> bool" where
  "wf_world w \<longleftrightarrow> list_all wf_rb (heap w)"

text \<open>The object a constructor call creates from the bytes \<open>bs\<close>.\<close>

definition fresh_rb :: "byte list \<Rightarrow> randbytes" where
  "fresh_rb bs = \<lparr>rb_wrapped = True, rb_i = frombytes bs, rb_n = length bs,
                  rb_pr_one = replicate (length bs * 8) (1/2)\<rparr>"

definition drawn_bytes :: "world \<Rightarrow> nat \<Rightarrow> byte list" where
  "drawn_bytes w n = map (\<lambda>k. rng w (drawn w + k)) [0..<n]"

text \<open>The state at program start, and a small state with one live one-byte buffer,
  used to instantiate theorems.\<close>

definition init_world :: "(nat \<Rightarrow> byte) \<Rightarrow> world" where
  "init_world g = \<lparr>heap = [], rng = g, drawn = 0, stdout = []\<rparr>"

definition ex_world :: world where
  "ex_world = \<lparr>heap = [fresh_rb [165]], rng = (\<lambda>k. of_nat k), drawn = 1, stdout = []\<rparr>"

section \<open>Execution lemmas\<close>

lemma get_obj_valid [simp]: "r < length (heap w) \<Longrightarrow> get_obj r w = (Inr (heap w ! r), w)"
  by (simp add: get_obj_def)

lemma get_obj_invalid [simp]: "\<not> r < length (heap w) \<Longrightarrow> get_obj r w = (Inl TypeError, w)"
  by (simp add: get_obj_def)

lemma put_obj_valid [simp]:
  "r < length (heap w) \<Longrightarrow> put_obj r x w = (Inr (), w\<lparr>heap := (heap w)[r := x]\<rparr>)"
  by (simp add: put_obj_def)

lemma set_wrapped_valid [simp]:
  "r < length (heap w) \<Longrightarrow>
     set_wrapped r b w = (Inr (), w\<lparr>heap := (heap w)[r := (heap w ! r)\<lparr>rb_wrapped := b\<rparr>]\<rparr>)"
  by (simp add: set_wrapped_def py_bind_def)

lemma rb_len_live [simp]:
  "s < length (heap w) \<Longrightarrow> rb_wrapped (heap w ! s) \<Longrightarrow> rb_len s w = (Inr (rb_n (heap w ! s)), w)"
  by (simp add: rb_len_def py_bind_def py_return_def)

lemma RandBytes_nat [simp]:
  "RandBytes (int n) w =
     (Inr (length (heap w)),
      w\<lparr>drawn := drawn w + n, heap := heap w @ [fresh_rb (drawn_bytes w n)]\<rparr>)"
  by (simp add: RandBytes_def os_urandom_def alloc_def py_bind_def fresh_rb_def drawn_bytes_def)

lemma wf_fresh_rb [simp]: "wf_rb (fresh_rb bs)"
  by (simp add: wf_rb_def fresh_rb_def)

lemma wf_world_update:
  "wf_world w \<Longrightarrow> wf_rb x \<Longrightarrow> wf_world (w\<lparr>heap := (heap w)[r := x]\<rparr>)"
  by (auto simp: wf_world_def list_all_iff dest: set_update_subset_insert [THEN subsetD])

lemma wf_world_append:
  "wf_world w \<Longrightarrow> wf_rb x \<Longrightarrow> wf_world (w\<lparr>heap := heap w @ [x]\<rparr>)"
  by (simp add: wf_world_def)

lemma wf_world_nth: "wf_world w \<Longrightarrow> r < length (heap w) \<Longrightarrow> wf_rb (heap w ! r)"
  by (simp add: wf_world_def list_all_length)

lemma wf_ex_world [simp]: "wf_world ex_world"
  by (simp add: wf_world_def ex_world_def)

lemma wf_rb_wrapped [simp]: "wf_rb (x\<lparr>rb_wrapped := b\<rparr>) = wf_rb x"
  by (simp add: wf_rb_def)

lemma rb_entropy_eq:
  "s < length (heap w) \<Longrightarrow> rb_entropy s w = (Inr (sum_list (map H_min (rb_pr_one (heap w ! s)))), w)"
  by (simp add: rb_entropy_def py_bind_def py_lift_def min_entropy_eq_H_min py_map_total)

lemma rb_unwrap_eq:
  "s < length (heap w) \<Longrightarrow>
     rb_unwrap s w = (Inr (rb_i (heap w ! s)), w\<lparr>heap := (heap w)[s := (heap w ! s)\<lparr>rb_wrapped := False\<rparr>]\<rparr>)"
  by (simp add: rb_unwrap_def py_bind_def py_return_def)


section \<open>Properties of construction and the read operations\<close>

text \<open>
  C12. \<open>RandBytes(n)\<close> for \<open>n \<ge> 0\<close> creates a live object at the next reference
  holding the \<open>8 n\<close> bits of the next \<open>n\<close> bytes of the random stream, every
  probability \<open>1/2\<close>, hence entropy exactly \<open>8 n\<close>; it changes no existing object
  and advances the stream by \<open>n\<close> bytes.
\<close>

theorem RandBytes_fresh:
  "let (res, w') = RandBytes (int n) w; r = length (heap w); x = heap w' ! r in
     res = Inr r \<and> rb_wrapped x \<and> rb_n x = n \<and> rb_i x = frombytes (drawn_bytes w n) \<and>
     length (rb_i x) = 8 * n \<and> rb_pr_one x = replicate (8 * n) (1/2) \<and>
     take r (heap w') = heap w \<and> drawn w' = drawn w + n \<and>
     fst (rb_entropy r w') = Inr (8 * real n)"
proof -
  have "sum_list (replicate (8 * n) (H_min (1/2))) = 8 * real n"
    by (simp add: sum_list_replicate H_min_half)
  then show ?thesis
    by (simp add: fresh_rb_def drawn_bytes_def rb_entropy_eq mult.commute)
qed

text \<open>
  C19. \<open>RandBytes(n)\<close> with \<open>n < 0\<close> raises ValueError (from \<open>os.urandom\<close>) before
  any object is created or any random byte read.
\<close>

theorem RandBytes_negative:
  "n < 0 \<Longrightarrow> RandBytes n w = (Inl ValueError, w)"
  by (simp add: RandBytes_def os_urandom_def py_bind_def)

theorem RandBytes_negative_witness:
  "(-1 :: int) < 0 \<and> RandBytes (-1) ex_world = (Inl ValueError, ex_world)"
proof -
  have h: "(-1 :: int) < 0" by simp
  show ?thesis using h RandBytes_negative [OF h] by blast
qed

text \<open>
  C16. \<open>entropy()\<close> does not check the consumed flag: after \<open>unwrap()\<close> it still
  returns the sum of the per-bit minimum entropies \<open>-log2 (max p (1 - p))\<close>, and it
  changes nothing.
\<close>

theorem entropy_after_unwrap:
  "s < length (heap w) \<Longrightarrow>
     py_bind (rb_unwrap s) (\<lambda>_. rb_entropy s) w =
       (Inr (sum_list (map H_min (rb_pr_one (heap w ! s)))), snd (rb_unwrap s w))"
  by (simp add: py_bind_def rb_unwrap_eq rb_entropy_eq)

theorem entropy_after_unwrap_witness:
  "0 < length (heap ex_world) \<and>
   py_bind (rb_unwrap 0) (\<lambda>_. rb_entropy 0) ex_world =
     (Inr (sum_list (map H_min (rb_pr_one (heap ex_world ! 0)))), snd (rb_unwrap 0 ex_world))"
proof -
  have h: "0 < length (heap ex_world)" by (simp add: ex_world_def)
  show ?thesis using h entropy_after_unwrap [OF h] by blast
qed

text \<open>
  C17. \<open>unwrap()\<close> does not check the consumed flag either: unwrapping twice is the
  same as unwrapping once, the second call returning the raw bits again.
\<close>

theorem unwrap_twice:
  "s < length (heap w) \<Longrightarrow> py_bind (rb_unwrap s) (\<lambda>_. rb_unwrap s) w = rb_unwrap s w"
  by (simp add: py_bind_def rb_unwrap_eq)

theorem unwrap_twice_witness:
  "0 < length (heap ex_world) \<and> py_bind (rb_unwrap 0) (\<lambda>_. rb_unwrap 0) ex_world = rb_unwrap 0 ex_world"
proof -
  have h: "0 < length (heap ex_world)" by (simp add: ex_world_def)
  show ?thesis using h unwrap_twice [OF h] by blast
qed

text \<open>
  C18. \<open>len(x)\<close> is the byte length of a live buffer, raises RuntimeError on a
  consumed one, and changes nothing.
\<close>

theorem rb_len_spec:
  "s < length (heap w) \<Longrightarrow>
     rb_len s w = (if rb_wrapped (heap w ! s) then Inr (rb_n (heap w ! s)) else Inl RuntimeError, w)"
  by (simp add: rb_len_def py_bind_def py_raise_def py_return_def)

theorem rb_len_spec_witness:
  "0 < length (heap ex_world) \<and>
   rb_len 0 ex_world =
     (if rb_wrapped (heap ex_world ! 0) then Inr (rb_n (heap ex_world ! 0)) else Inl RuntimeError, ex_world)"
proof -
  have h: "0 < length (heap ex_world)" by (simp add: ex_world_def)
  show ?thesis using h rb_len_spec [OF h] by blast
qed

end
