(* ===== verification/RandOps.thy ===== *)
theory RandOps
  imports RandBytes
begin

text \<open>
  The operators of class \<open>RandBytes\<close> (\<open>src/pyrand.py\<close>, lines 28--121): \<open>&\<close>, \<open>|\<close>,
  \<open>^\<close> with a bit array or another \<open>RandBytes\<close> object as right operand, and \<open>~\<close>.
  Each is translated statement by statement: the liveness check of \<open>self\<close>, the
  dispatch on the operand's type, the length check, the construction of the result
  through \<open>RandBytes(len(self))\<close> (which draws fresh bytes that are then overwritten),
  the loop over \<open>range(len(self)*8)\<close> that writes the result's probabilities, and
  the consumption of the operands. The probability table of the spec is stated
  separately (\<open>and_lit\<close> \<dots> \<open>xor_ind\<close>); the lemmas show that each operator computes
  it, keeps the object invariant, and fails exactly when the spec says, with no
  effect on any object.
\<close>

section \<open>Operands\<close>

text \<open>The right operand: a bit array, a \<open>RandBytes\<close> object, or any other value.\<close>

datatype operand = OBits "bool list" | ORef ref | OOther

section \<open>Loop bodies\<close>

text \<open>Line 38--39: \<open>if not other[i]: newRB._pr_one[i] = 0\<close>.\<close>

definition and_bits_step :: "bool list \<Rightarrow> nat \<Rightarrow> real list \<Rightarrow> real list res" where
  "and_bits_step other k pr = ebind (py_index other k) (\<lambda>b. if \<not> b then py_store pr k 0 else Inr pr)"

text \<open>Line 50: \<open>newRB._pr_one[i] = self._pr_one[i] * other._pr_one[i]\<close>.\<close>

definition and_rb_step :: "real list \<Rightarrow> real list \<Rightarrow> nat \<Rightarrow> real list \<Rightarrow> real list res" where
  "and_rb_step ps qs k pr =
     ebind (py_index ps k) (\<lambda>p. ebind (py_index qs k) (\<lambda>q. py_store pr k (p * q)))"

text \<open>Line 66--67: \<open>if other[i]: newRB._pr_one[i] = 1\<close>.\<close>

definition or_bits_step :: "bool list \<Rightarrow> nat \<Rightarrow> real list \<Rightarrow> real list res" where
  "or_bits_step other k pr = ebind (py_index other k) (\<lambda>b. if b then py_store pr k 1 else Inr pr)"

text \<open>Line 78: \<open>1 - ((1 - self._pr_one[i]) * (1 - other._pr_one[i]))\<close>.\<close>

definition or_rb_step :: "real list \<Rightarrow> real list \<Rightarrow> nat \<Rightarrow> real list \<Rightarrow> real list res" where
  "or_rb_step ps qs k pr =
     ebind (py_index ps k) (\<lambda>p. ebind (py_index qs k) (\<lambda>q. py_store pr k (1 - ((1 - p) * (1 - q)))))"

text \<open>Line 94--95: \<open>if other[i]: newRB._pr_one[i] = 1 - newRB._pr_one[i]\<close>.\<close>

definition xor_bits_step :: "bool list \<Rightarrow> nat \<Rightarrow> real list \<Rightarrow> real list res" where
  "xor_bits_step other k pr =
     ebind (py_index other k) (\<lambda>b.
       if b then ebind (py_index pr k) (\<lambda>p. py_store pr k (1 - p)) else Inr pr)"

text \<open>Line 108: \<open>self._pr_one[i] * (1 - other._pr_one[i]) + other._pr_one[i] * (1 - self._pr_one[i])\<close>.\<close>

definition xor_rb_step :: "real list \<Rightarrow> real list \<Rightarrow> nat \<Rightarrow> real list \<Rightarrow> real list res" where
  "xor_rb_step ps qs k pr =
     ebind (py_index ps k) (\<lambda>p. ebind (py_index qs k) (\<lambda>q. py_store pr k (p * (1 - q) + q * (1 - p))))"

section \<open>The operators\<close>

text \<open>Writing the result's \<open>_i\<close> and \<open>_pr_one\<close> (lines 35--36 and their counterparts).\<close>

definition set_payload :: "ref \<Rightarrow> bool list \<Rightarrow> real list \<Rightarrow> (world, unit) py" where
  "set_payload r i pr = py_bind (get_obj r) (\<lambda>y. put_obj r (y\<lparr>rb_i := i, rb_pr_one := pr\<rparr>))"

text \<open>
  \<open>len(self)\<close> is called once and its value reused: \<open>self\<close> is live at every call of
  the method body, so every call returns \<open>self._n\<close>.
\<close>

definition rb_and :: "ref \<Rightarrow> operand \<Rightarrow> (world, ref) py" where
  "rb_and self other =
     py_bind (get_obj self) (\<lambda>x.
     if \<not> rb_wrapped x then py_raise RuntimeError else
     (case other of
        OBits b \<Rightarrow>
          if length (rb_i x) \<noteq> length b then py_raise ValueError else
          py_bind (rb_len self) (\<lambda>n.
          py_bind (RandBytes (int n)) (\<lambda>newRB.
          py_bind (py_lift (ba_and (rb_i x) b)) (\<lambda>i.
          py_bind (py_lift (py_for (and_bits_step b) [0..<n * 8] (rb_pr_one x))) (\<lambda>pr.
          py_bind (set_payload newRB i pr) (\<lambda>_.
          py_bind (set_wrapped self False) (\<lambda>_.
          py_return newRB))))))
      | ORef r \<Rightarrow>
          py_bind (rb_len self) (\<lambda>n. py_bind (rb_len r) (\<lambda>m.
          if n \<noteq> m then py_raise ValueError else
          py_bind (RandBytes (int n)) (\<lambda>newRB.
          py_bind (get_obj r) (\<lambda>y.
          py_bind (py_lift (ba_and (rb_i x) (rb_i y))) (\<lambda>i.
          py_bind (py_lift
            (if self \<noteq> r then py_for (and_rb_step (rb_pr_one x) (rb_pr_one y)) [0..<n * 8] (rb_pr_one x)
             else Inr (rb_pr_one x))) (\<lambda>pr.
          py_bind (set_payload newRB i pr) (\<lambda>_.
          py_bind (set_wrapped self False) (\<lambda>_.
          py_bind (set_wrapped r False) (\<lambda>_.
          py_return newRB)))))))))
      | OOther \<Rightarrow> py_raise TypeError))"

definition rb_or :: "ref \<Rightarrow> operand \<Rightarrow> (world, ref) py" where
  "rb_or self other =
     py_bind (get_obj self) (\<lambda>x.
     if \<not> rb_wrapped x then py_raise RuntimeError else
     (case other of
        OBits b \<Rightarrow>
          if length (rb_i x) \<noteq> length b then py_raise ValueError else
          py_bind (rb_len self) (\<lambda>n.
          py_bind (RandBytes (int n)) (\<lambda>newRB.
          py_bind (py_lift (ba_or (rb_i x) b)) (\<lambda>i.
          py_bind (py_lift (py_for (or_bits_step b) [0..<n * 8] (rb_pr_one x))) (\<lambda>pr.
          py_bind (set_payload newRB i pr) (\<lambda>_.
          py_bind (set_wrapped self False) (\<lambda>_.
          py_return newRB))))))
      | ORef r \<Rightarrow>
          py_bind (rb_len self) (\<lambda>n. py_bind (rb_len r) (\<lambda>m.
          if n \<noteq> m then py_raise ValueError else
          py_bind (RandBytes (int n)) (\<lambda>newRB.
          py_bind (get_obj r) (\<lambda>y.
          py_bind (py_lift (ba_or (rb_i x) (rb_i y))) (\<lambda>i.
          py_bind (py_lift
            (if self \<noteq> r then py_for (or_rb_step (rb_pr_one x) (rb_pr_one y)) [0..<n * 8] (rb_pr_one x)
             else Inr (rb_pr_one x))) (\<lambda>pr.
          py_bind (set_payload newRB i pr) (\<lambda>_.
          py_bind (set_wrapped self False) (\<lambda>_.
          py_bind (set_wrapped r False) (\<lambda>_.
          py_return newRB)))))))))
      | OOther \<Rightarrow> py_raise TypeError))"

definition rb_xor :: "ref \<Rightarrow> operand \<Rightarrow> (world, ref) py" where
  "rb_xor self other =
     py_bind (get_obj self) (\<lambda>x.
     if \<not> rb_wrapped x then py_raise RuntimeError else
     (case other of
        OBits b \<Rightarrow>
          if length (rb_i x) \<noteq> length b then py_raise ValueError else
          py_bind (rb_len self) (\<lambda>n.
          py_bind (RandBytes (int n)) (\<lambda>newRB.
          py_bind (py_lift (ba_xor (rb_i x) b)) (\<lambda>i.
          py_bind (py_lift (py_for (xor_bits_step b) [0..<n * 8] (rb_pr_one x))) (\<lambda>pr.
          py_bind (set_payload newRB i pr) (\<lambda>_.
          py_bind (set_wrapped self False) (\<lambda>_.
          py_return newRB))))))
      | ORef r \<Rightarrow>
          py_bind (rb_len self) (\<lambda>n. py_bind (rb_len r) (\<lambda>m.
          if n \<noteq> m then py_raise ValueError else
          py_bind (RandBytes (int n)) (\<lambda>newRB.
          py_bind (get_obj r) (\<lambda>y.
          py_bind (py_lift (ba_xor (rb_i x) (rb_i y))) (\<lambda>i.
          py_bind (py_lift
            (if self = r then Inr (replicate (length (rb_i x)) 0)
             else py_for (xor_rb_step (rb_pr_one x) (rb_pr_one y)) [0..<n * 8] (rb_pr_one x))) (\<lambda>pr.
          py_bind (set_payload newRB i pr) (\<lambda>_.
          py_bind (set_wrapped self False) (\<lambda>_.
          py_bind (set_wrapped r False) (\<lambda>_.
          py_return newRB)))))))))
      | OOther \<Rightarrow> py_raise TypeError))"

definition rb_invert :: "ref \<Rightarrow> (world, ref) py" where
  "rb_invert self =
     py_bind (get_obj self) (\<lambda>x.
     if \<not> rb_wrapped x then py_raise RuntimeError else
     py_bind (rb_len self) (\<lambda>n.
     py_bind (RandBytes (int n)) (\<lambda>newRB.
     py_bind (set_payload newRB (ba_invert (rb_i x)) (map (\<lambda>p. 1 - p) (rb_pr_one x))) (\<lambda>_.
     py_bind (set_wrapped self False) (\<lambda>_.
     py_return newRB)))))"

section \<open>The specification\<close>

text \<open>The probability table of the spec (section 4.2), per bit.\<close>

definition and_lit :: "real \<Rightarrow> bool \<Rightarrow> real" where
  "and_lit p b = (if b then p else 0)"

definition or_lit :: "real \<Rightarrow> bool \<Rightarrow> real" where
  "or_lit p b = (if b then 1 else p)"

definition xor_lit :: "real \<Rightarrow> bool \<Rightarrow> real" where
  "xor_lit p b = (if b then 1 - p else p)"

definition and_ind :: "real \<Rightarrow> real \<Rightarrow> real" where
  "and_ind p q = p * q"

definition or_ind :: "real \<Rightarrow> real \<Rightarrow> real" where
  "or_ind p q = 1 - (1 - p) * (1 - q)"

definition xor_ind :: "real \<Rightarrow> real \<Rightarrow> real" where
  "xor_ind p q = p * (1 - q) + q * (1 - p)"

text \<open>
  The state after a successful operator call: the operands \<open>rs\<close> consumed, the
  bytes of the discarded constructor draw spent, and the result object appended.
\<close>

definition consume :: "ref \<Rightarrow> randbytes list \<Rightarrow> randbytes list" where
  "consume r h = h[r := (h ! r)\<lparr>rb_wrapped := False\<rparr>]"

definition op_post :: "world \<Rightarrow> ref list \<Rightarrow> nat \<Rightarrow> bool list \<Rightarrow> real list \<Rightarrow> world" where
  "op_post w rs n i pr =
     w\<lparr>drawn := drawn w + n,
       heap := fold consume rs (heap w) @ [\<lparr>rb_wrapped = True, rb_i = i, rb_n = n, rb_pr_one = pr\<rparr>]\<rparr>"

text \<open>The exception the spec requires of a binary operator call, if any.\<close>

definition binop_error :: "world \<Rightarrow> ref \<Rightarrow> operand \<Rightarrow> error option" where
  "binop_error w s other =
     (if \<not> s < length (heap w) then Some TypeError
      else if \<not> rb_wrapped (heap w ! s) then Some RuntimeError
      else case other of
        OBits b \<Rightarrow> if length b \<noteq> length (rb_i (heap w ! s)) then Some ValueError else None
      | ORef r \<Rightarrow>
          if \<not> r < length (heap w) then Some TypeError
          else if \<not> rb_wrapped (heap w ! r) then Some RuntimeError
          else if rb_n (heap w ! r) \<noteq> rb_n (heap w ! s) then Some ValueError else None
      | OOther \<Rightarrow> Some TypeError)"

text \<open>
  What a binary operator call should do, from the spec: raise the error \<open>binop_error\<close>
  names, with no effect; otherwise return a new object (the next reference) whose bits
  are the bitwise combination, whose probabilities follow the table (\<open>lit\<close> for a bit
  array, \<open>ind\<close> for an independent buffer, \<open>same\<close> when both operands are one
  object), and consume the operands.
\<close>

definition binop_spec ::
  "(bool \<Rightarrow> bool \<Rightarrow> bool) \<Rightarrow> (real \<Rightarrow> bool \<Rightarrow> real) \<Rightarrow> (real \<Rightarrow> real \<Rightarrow> real) \<Rightarrow> (real \<Rightarrow> real) \<Rightarrow>
   world \<Rightarrow> ref \<Rightarrow> operand \<Rightarrow> ref res \<times> world" where
  "binop_spec bop lit ind same w s other =
     (case binop_error w s other of
        Some e \<Rightarrow> (Inl e, w)
      | None \<Rightarrow>
          (let x = heap w ! s in
           (Inr (length (heap w)),
            case other of
              OBits b \<Rightarrow> op_post w [s] (rb_n x) (map2 bop (rb_i x) b) (map2 lit (rb_pr_one x) b)
            | ORef r \<Rightarrow>
                op_post w [s, r] (rb_n x) (map2 bop (rb_i x) (rb_i (heap w ! r)))
                  (if r = s then map same (rb_pr_one x) else map2 ind (rb_pr_one x) (rb_pr_one (heap w ! r)))
            | OOther \<Rightarrow> w)))"

section \<open>Loops compute the table\<close>

lemma py_for_lit:
  assumes "\<And>k acc. k < length pr \<Longrightarrow> length acc = length pr \<Longrightarrow> body k acc = Inr (acc[k := f (acc ! k) (b ! k)])"
    and "length b = length pr"
  shows "py_for body [0..<length pr] pr = Inr (map2 f pr b)"
proof -
  have "py_for body [0..<length pr] pr = Inr (pointwise (\<lambda>k p. f p (b ! k)) pr)"
    by (rule py_for_pointwise) (rule assms(1))
  also have "pointwise (\<lambda>k p. f p (b ! k)) pr = map2 f pr b"
    using assms(2) by (intro nth_equalityI) simp_all
  finally show ?thesis .
qed

lemma py_for_ind:
  assumes "\<And>k acc. k < length ps \<Longrightarrow> length acc = length ps \<Longrightarrow> body k acc = Inr (acc[k := f (ps ! k) (qs ! k)])"
    and "length qs = length ps"
  shows "py_for body [0..<length ps] ps = Inr (map2 f ps qs)"
proof -
  have "py_for body [0..<length ps] ps = Inr (pointwise (\<lambda>k _. f (ps ! k) (qs ! k)) ps)"
    by (rule py_for_pointwise) (rule assms(1))
  also have "pointwise (\<lambda>k _. f (ps ! k) (qs ! k)) ps = map2 f ps qs"
    using assms(2) by (intro nth_equalityI) simp_all
  finally show ?thesis .
qed

lemma and_bits_step_in: "k < length b \<Longrightarrow> k < length acc \<Longrightarrow> and_bits_step b k acc = Inr (acc[k := and_lit (acc ! k) (b ! k)])"
  by (simp add: and_bits_step_def and_lit_def)
lemma or_bits_step_in: "k < length b \<Longrightarrow> k < length acc \<Longrightarrow> or_bits_step b k acc = Inr (acc[k := or_lit (acc ! k) (b ! k)])"
  by (simp add: or_bits_step_def or_lit_def)
lemma xor_bits_step_in: "k < length b \<Longrightarrow> k < length acc \<Longrightarrow> xor_bits_step b k acc = Inr (acc[k := xor_lit (acc ! k) (b ! k)])"
  by (simp add: xor_bits_step_def xor_lit_def)
lemma and_rb_step_in: "k < length ps \<Longrightarrow> k < length qs \<Longrightarrow> k < length acc \<Longrightarrow> and_rb_step ps qs k acc = Inr (acc[k := and_ind (ps ! k) (qs ! k)])"
  by (simp add: and_rb_step_def and_ind_def)
lemma or_rb_step_in: "k < length ps \<Longrightarrow> k < length qs \<Longrightarrow> k < length acc \<Longrightarrow> or_rb_step ps qs k acc = Inr (acc[k := or_ind (ps ! k) (qs ! k)])"
  by (simp add: or_rb_step_def or_ind_def)
lemma xor_rb_step_in: "k < length ps \<Longrightarrow> k < length qs \<Longrightarrow> k < length acc \<Longrightarrow> xor_rb_step ps qs k acc = Inr (acc[k := xor_ind (ps ! k) (qs ! k)])"
  by (simp add: xor_rb_step_def xor_ind_def)

lemma wf_live:
  "wf_world w \<Longrightarrow> s < length (heap w) \<Longrightarrow> length (rb_pr_one (heap w ! s)) = rb_n (heap w ! s) * 8 \<and> length (rb_i (heap w ! s)) = rb_n (heap w ! s) * 8"
  by (drule (1) wf_world_nth) (simp add: wf_rb_def)

lemmas op_unfold = py_bind_def ba_and_def ba_or_def ba_xor_def py_raise_def py_lift_def
  set_payload_def py_return_def op_post_def consume_def nth_append list_update_append1 fresh_rb_def drawn_bytes_def

lemma map2_same: "map2 f xs xs = map (\<lambda>x. f x x) xs"
  by (induction xs) auto

lemma rb_binop_bits:
  assumes "wf_world w" "s < length (heap w)" "rb_wrapped (heap w ! s)"
    "length b = length (rb_i (heap w ! s))"
  shows "rb_and s (OBits b) w = (Inr (length (heap w)),
      op_post w [s] (rb_n (heap w ! s)) (map2 (\<and>) (rb_i (heap w ! s)) b) (map2 and_lit (rb_pr_one (heap w ! s)) b))"
    and "rb_or s (OBits b) w = (Inr (length (heap w)),
      op_post w [s] (rb_n (heap w ! s)) (map2 (\<or>) (rb_i (heap w ! s)) b) (map2 or_lit (rb_pr_one (heap w ! s)) b))"
    and "rb_xor s (OBits b) w = (Inr (length (heap w)),
      op_post w [s] (rb_n (heap w ! s)) (map2 (\<noteq>) (rb_i (heap w ! s)) b) (map2 xor_lit (rb_pr_one (heap w ! s)) b))"
proof -
  let ?x = "heap w ! s"
  have l: "length (rb_pr_one ?x) = rb_n ?x * 8" "length (rb_i ?x) = rb_n ?x * 8"
    using wf_live [OF assms(1,2)] by auto
  have "py_for (and_bits_step b) [0..<rb_n ?x * 8] (rb_pr_one ?x) = Inr (map2 and_lit (rb_pr_one ?x) b)"
    and "py_for (or_bits_step b) [0..<rb_n ?x * 8] (rb_pr_one ?x) = Inr (map2 or_lit (rb_pr_one ?x) b)"
    and "py_for (xor_bits_step b) [0..<rb_n ?x * 8] (rb_pr_one ?x) = Inr (map2 xor_lit (rb_pr_one ?x) b)"
    using l assms(4) by (metis py_for_lit and_bits_step_in, metis py_for_lit or_bits_step_in,
        metis py_for_lit xor_bits_step_in)
  then show "rb_and s (OBits b) w = (Inr (length (heap w)),
      op_post w [s] (rb_n ?x) (map2 (\<and>) (rb_i ?x) b) (map2 and_lit (rb_pr_one ?x) b))"
    and "rb_or s (OBits b) w = (Inr (length (heap w)),
      op_post w [s] (rb_n ?x) (map2 (\<or>) (rb_i ?x) b) (map2 or_lit (rb_pr_one ?x) b))"
    and "rb_xor s (OBits b) w = (Inr (length (heap w)),
      op_post w [s] (rb_n ?x) (map2 (\<noteq>) (rb_i ?x) b) (map2 xor_lit (rb_pr_one ?x) b))"
    using assms l
    by (simp_all add: rb_and_def rb_or_def rb_xor_def op_unfold)
qed

lemma rb_binop_ind:
  assumes "wf_world w" "s < length (heap w)" "rb_wrapped (heap w ! s)"
    "r < length (heap w)" "rb_wrapped (heap w ! r)" "rb_n (heap w ! r) = rb_n (heap w ! s)" "r \<noteq> s"
  shows "rb_and s (ORef r) w = (Inr (length (heap w)),
      op_post w [s, r] (rb_n (heap w ! s)) (map2 (\<and>) (rb_i (heap w ! s)) (rb_i (heap w ! r)))
        (map2 and_ind (rb_pr_one (heap w ! s)) (rb_pr_one (heap w ! r))))"
    and "rb_or s (ORef r) w = (Inr (length (heap w)),
      op_post w [s, r] (rb_n (heap w ! s)) (map2 (\<or>) (rb_i (heap w ! s)) (rb_i (heap w ! r)))
        (map2 or_ind (rb_pr_one (heap w ! s)) (rb_pr_one (heap w ! r))))"
    and "rb_xor s (ORef r) w = (Inr (length (heap w)),
      op_post w [s, r] (rb_n (heap w ! s)) (map2 (\<noteq>) (rb_i (heap w ! s)) (rb_i (heap w ! r)))
        (map2 xor_ind (rb_pr_one (heap w ! s)) (rb_pr_one (heap w ! r))))"
proof -
  let ?x = "heap w ! s" and ?y = "heap w ! r"
  have l: "length (rb_pr_one ?x) = rb_n ?x * 8" "length (rb_i ?x) = rb_n ?x * 8"
      "length (rb_pr_one ?y) = rb_n ?x * 8" "length (rb_i ?y) = rb_n ?x * 8"
    using wf_live [OF assms(1,2)] wf_live [OF assms(1,4)] assms(6) by auto
  have "py_for (and_rb_step (rb_pr_one ?x) (rb_pr_one ?y)) [0..<rb_n ?x * 8] (rb_pr_one ?x) = Inr (map2 and_ind (rb_pr_one ?x) (rb_pr_one ?y))"
    and "py_for (or_rb_step (rb_pr_one ?x) (rb_pr_one ?y)) [0..<rb_n ?x * 8] (rb_pr_one ?x) = Inr (map2 or_ind (rb_pr_one ?x) (rb_pr_one ?y))"
    and "py_for (xor_rb_step (rb_pr_one ?x) (rb_pr_one ?y)) [0..<rb_n ?x * 8] (rb_pr_one ?x) = Inr (map2 xor_ind (rb_pr_one ?x) (rb_pr_one ?y))"
    using l by (metis py_for_ind and_rb_step_in, metis py_for_ind or_rb_step_in,
        metis py_for_ind xor_rb_step_in)
  then show "rb_and s (ORef r) w = (Inr (length (heap w)),
      op_post w [s, r] (rb_n ?x) (map2 (\<and>) (rb_i ?x) (rb_i ?y)) (map2 and_ind (rb_pr_one ?x) (rb_pr_one ?y)))"
    and "rb_or s (ORef r) w = (Inr (length (heap w)),
      op_post w [s, r] (rb_n ?x) (map2 (\<or>) (rb_i ?x) (rb_i ?y)) (map2 or_ind (rb_pr_one ?x) (rb_pr_one ?y)))"
    and "rb_xor s (ORef r) w = (Inr (length (heap w)),
      op_post w [s, r] (rb_n ?x) (map2 (\<noteq>) (rb_i ?x) (rb_i ?y)) (map2 xor_ind (rb_pr_one ?x) (rb_pr_one ?y)))"
    using assms l
    by (simp_all add: rb_and_def rb_or_def rb_xor_def op_unfold)
qed

lemma rb_binop_self:
  assumes "wf_world w" "s < length (heap w)" "rb_wrapped (heap w ! s)"
  shows "rb_and s (ORef s) w = (Inr (length (heap w)),
      op_post w [s, s] (rb_n (heap w ! s)) (rb_i (heap w ! s)) (rb_pr_one (heap w ! s)))"
    and "rb_or s (ORef s) w = (Inr (length (heap w)),
      op_post w [s, s] (rb_n (heap w ! s)) (rb_i (heap w ! s)) (rb_pr_one (heap w ! s)))"
    and "rb_xor s (ORef s) w = (Inr (length (heap w)),
      op_post w [s, s] (rb_n (heap w ! s)) (replicate (length (rb_i (heap w ! s))) False)
        (replicate (length (rb_pr_one (heap w ! s))) 0))"
proof -
  let ?x = "heap w ! s"
  have l: "length (rb_pr_one ?x) = rb_n ?x * 8" "length (rb_i ?x) = rb_n ?x * 8"
    using wf_live [OF assms(1,2)] by auto
  show "rb_and s (ORef s) w = (Inr (length (heap w)), op_post w [s, s] (rb_n ?x) (rb_i ?x) (rb_pr_one ?x))"
    and "rb_or s (ORef s) w = (Inr (length (heap w)), op_post w [s, s] (rb_n ?x) (rb_i ?x) (rb_pr_one ?x))"
    and "rb_xor s (ORef s) w = (Inr (length (heap w)), op_post w [s, s] (rb_n ?x)
          (replicate (length (rb_i ?x)) False) (replicate (length (rb_pr_one ?x)) 0))"
    using assms l
    by (simp_all add: rb_and_def rb_or_def rb_xor_def op_unfold map2_same map_replicate_const)
qed


lemma rb_binop_error_live:
  assumes True: "s < length (heap w) \<and> rb_wrapped (heap w ! s)"
    and assms: "binop_error w s other = Some e"
  shows "rb_and s other w = (Inl e, w) \<and> rb_or s other w = (Inl e, w) \<and> rb_xor s other w = (Inl e, w)"
proof -
  show ?thesis
  proof (cases other)
    case (OBits b)
    with True assms show ?thesis
      by (simp add: binop_error_def rb_and_def rb_or_def rb_xor_def py_bind_def py_raise_def split: if_splits)
  next
    case (ORef r)
    consider "\<not> r < length (heap w)" | "r < length (heap w)" "\<not> rb_wrapped (heap w ! r)"
      | "r < length (heap w)" "rb_wrapped (heap w ! r)" "rb_n (heap w ! r) \<noteq> rb_n (heap w ! s)"
      using True assms ORef by (auto simp: binop_error_def split: if_splits)
    then show ?thesis
    proof cases
      case 1
      with True assms ORef show ?thesis
        by (simp add: binop_error_def rb_and_def rb_or_def rb_xor_def py_bind_def rb_len_def)
    next
      case 2
      with True assms ORef show ?thesis
        by (simp add: binop_error_def rb_and_def rb_or_def rb_xor_def py_bind_def rb_len_def py_raise_def)
    next
      case 3
      with True assms ORef show ?thesis
        by (simp add: binop_error_def rb_and_def rb_or_def rb_xor_def py_bind_def py_raise_def)
    qed
  next
    case OOther
    with True assms show ?thesis
      by (simp add: binop_error_def rb_and_def rb_or_def rb_xor_def py_bind_def py_raise_def)
  qed
qed

lemma rb_binop_error:
  assumes "binop_error w s other = Some e"
  shows "rb_and s other w = (Inl e, w) \<and> rb_or s other w = (Inl e, w) \<and> rb_xor s other w = (Inl e, w)"
proof -
  consider "\<not> s < length (heap w)" | "s < length (heap w)" "\<not> rb_wrapped (heap w ! s)"
    | "s < length (heap w) \<and> rb_wrapped (heap w ! s)"
    by blast
  then show ?thesis
  proof cases
    case 1
    with assms show ?thesis
      by (simp add: binop_error_def rb_and_def rb_or_def rb_xor_def py_bind_def)
  next
    case 2
    with assms show ?thesis
      by (simp add: binop_error_def rb_and_def rb_or_def rb_xor_def py_bind_def py_raise_def)
  next
    case 3
    then show ?thesis using assms by (rule rb_binop_error_live)
  qed
qed

lemma binop_error_None:
  "binop_error w s other = None \<Longrightarrow> s < length (heap w) \<and> rb_wrapped (heap w ! s) \<and>
     (case other of OBits b \<Rightarrow> length b = length (rb_i (heap w ! s))
      | ORef r \<Rightarrow> r < length (heap w) \<and> rb_wrapped (heap w ! r) \<and> rb_n (heap w ! r) = rb_n (heap w ! s)
      | OOther \<Rightarrow> False)"
  by (auto simp: binop_error_def split: operand.splits if_splits)

lemma rb_binops_spec:
  assumes "wf_world w"
  shows "rb_and s other w = binop_spec (\<and>) and_lit and_ind id w s other \<and>
         rb_or s other w = binop_spec (\<or>) or_lit or_ind id w s other \<and>
         rb_xor s other w = binop_spec (\<noteq>) xor_lit xor_ind (\<lambda>_. 0) w s other"
proof (cases "binop_error w s other")
  case None
  note ok = binop_error_None [OF None]
  show ?thesis
  proof (cases other)
    case (OBits b)
    with None assms ok show ?thesis by (simp add: binop_spec_def rb_binop_bits Let_def)
  next
    case (ORef r)
    with None assms ok show ?thesis
      by (cases "r = s") (simp_all add: binop_spec_def rb_binop_ind rb_binop_self Let_def map2_same
          map_replicate_const)
  next
    case OOther
    with ok show ?thesis by simp
  qed
next
  case (Some e)
  then show ?thesis by (simp add: binop_spec_def rb_binop_error)
qed

lemma rb_invert_eq:
  "rb_invert s w =
     (if \<not> s < length (heap w) then (Inl TypeError, w)
      else if \<not> rb_wrapped (heap w ! s) then (Inl RuntimeError, w)
      else (Inr (length (heap w)),
            op_post w [s] (rb_n (heap w ! s)) (map Not (rb_i (heap w ! s)))
              (map (\<lambda>p. 1 - p) (rb_pr_one (heap w ! s)))))"
  by (simp add: rb_invert_def op_unfold ba_invert_def rb_len_def)

lemma lit_probs:
  "0 \<le> p \<Longrightarrow> p \<le> 1 \<Longrightarrow> 0 \<le> and_lit p b \<and> and_lit p b \<le> 1"
  "0 \<le> p \<Longrightarrow> p \<le> 1 \<Longrightarrow> 0 \<le> or_lit p b \<and> or_lit p b \<le> 1"
  "0 \<le> p \<Longrightarrow> p \<le> 1 \<Longrightarrow> 0 \<le> xor_lit p b \<and> xor_lit p b \<le> 1"
  by (simp_all add: and_lit_def or_lit_def xor_lit_def)

lemma ind_probs:
  assumes "0 \<le> p" "p \<le> 1" "0 \<le> q" "q \<le> 1"
  shows "0 \<le> and_ind p q \<and> and_ind p q \<le> 1"
    and "0 \<le> or_ind p q \<and> or_ind p q \<le> 1"
    and "0 \<le> xor_ind p q \<and> xor_ind p q \<le> 1"
proof -
  have "0 \<le> (1 - p) * (1 - q)" "(1 - p) * (1 - q) \<le> 1" "p * q \<le> 1" "0 \<le> p * q"
    using assms by (simp_all add: mult_le_one)
  moreover have "0 \<le> p * (1 - q)" "0 \<le> q * (1 - p)"
    using assms by simp_all
  moreover have "p * (1 - q) + q * (1 - p) = 1 - ((1 - p) * (1 - q) + p * q)"
    by (simp add: algebra_simps)
  ultimately show "0 \<le> and_ind p q \<and> and_ind p q \<le> 1"
    and "0 \<le> or_ind p q \<and> or_ind p q \<le> 1"
    and "0 \<le> xor_ind p q \<and> xor_ind p q \<le> 1"
    by (simp_all add: and_ind_def or_ind_def xor_ind_def)
qed

lemma fold_consume:
  "set rs \<subseteq> {..<length h} \<Longrightarrow> length (fold consume rs h) = length h \<and>
     (list_all wf_rb h \<longrightarrow> list_all wf_rb (fold consume rs h))"
proof (induction rs arbitrary: h)
  case (Cons r rs)
  have "length (consume r h) = length h" "list_all wf_rb h \<longrightarrow> list_all wf_rb (consume r h)"
    using Cons.prems
    by (auto simp: consume_def list_all_length nth_list_update)
  with Cons show ?case by simp
qed simp

lemma wf_op_post:
  assumes "wf_world w" "set rs \<subseteq> {..<length (heap w)}" "length i = 8 * n" "length pr = 8 * n"
    "\<forall>p \<in> set pr. 0 \<le> p \<and> p \<le> 1"
  shows "wf_world (op_post w rs n i pr)"
  using assms fold_consume [OF assms(2)] by (simp add: wf_world_def op_post_def wf_rb_def)

lemma map2_probs:
  "(\<And>a c. a \<in> set xs \<Longrightarrow> c \<in> set ys \<Longrightarrow> 0 \<le> f a c \<and> f a c \<le> 1) \<Longrightarrow>
   \<forall>p \<in> set (map2 f xs ys). 0 \<le> p \<and> p \<le> (1::real)"
  by (auto dest: set_zip_leftD set_zip_rightD)

lemma wf_binop_spec:
  assumes wf: "wf_world w"
    and lit: "\<And>p b. 0 \<le> p \<Longrightarrow> p \<le> 1 \<Longrightarrow> 0 \<le> lit p b \<and> lit p b \<le> 1"
    and ind: "\<And>p q. 0 \<le> p \<Longrightarrow> p \<le> 1 \<Longrightarrow> 0 \<le> q \<Longrightarrow> q \<le> 1 \<Longrightarrow> 0 \<le> ind p q \<and> ind p q \<le> 1"
    and same: "\<And>p. 0 \<le> p \<Longrightarrow> p \<le> 1 \<Longrightarrow> 0 \<le> same p \<and> same p \<le> 1"
  shows "wf_world (snd (binop_spec bop lit ind same w s other))"
proof (cases "binop_error w s other")
  case None
  note ok = binop_error_None [OF None]
  let ?x = "heap w ! s"
  have x: "wf_rb ?x" using ok wf by (simp add: wf_world_nth)
  then have px: "\<forall>p \<in> set (rb_pr_one ?x). 0 \<le> p \<and> p \<le> 1" and lx: "length (rb_i ?x) = 8 * rb_n ?x"
      "length (rb_pr_one ?x) = 8 * rb_n ?x"
    by (simp_all add: wf_rb_def)
  show ?thesis
  proof (cases other)
    case (OBits b)
    have "\<forall>p \<in> set (map2 lit (rb_pr_one ?x) b). 0 \<le> p \<and> p \<le> 1"
      using px lit by (intro map2_probs) simp
    moreover have "length b = 8 * rb_n ?x" using ok OBits lx by simp
    ultimately show ?thesis
      using OBits None ok wf lx by (simp add: binop_spec_def Let_def wf_op_post)
  next
    case (ORef r)
    let ?y = "heap w ! r"
    have y: "wf_rb ?y" using ok wf ORef by (simp add: wf_world_nth)
    then have py: "\<forall>p \<in> set (rb_pr_one ?y). 0 \<le> p \<and> p \<le> 1" and ly: "length (rb_i ?y) = 8 * rb_n ?x"
        "length (rb_pr_one ?y) = 8 * rb_n ?x"
      using ok ORef by (simp_all add: wf_rb_def)
    have "\<forall>p \<in> set (map2 ind (rb_pr_one ?x) (rb_pr_one ?y)). 0 \<le> p \<and> p \<le> 1"
      using px py ind by (intro map2_probs) simp
    moreover have "\<forall>p \<in> set (map same (rb_pr_one ?x)). 0 \<le> p \<and> p \<le> 1"
      using px same by simp
    ultimately show ?thesis
      using ORef None ok wf lx ly by (simp add: binop_spec_def Let_def wf_op_post)
  next
    case OOther
    with ok show ?thesis by simp
  qed
qed (simp add: binop_spec_def wf)

lemma wf_rb_invert:
  assumes "wf_world w"
  shows "wf_world (snd (rb_invert s w))"
proof (cases "s < length (heap w) \<and> rb_wrapped (heap w ! s)")
  case True
  then have "wf_rb (heap w ! s)" using assms by (simp add: wf_world_nth)
  with True assms show ?thesis
    by (simp add: rb_invert_eq wf_rb_def wf_op_post)
qed (auto simp: rb_invert_eq assms)

lemma consume_commute: "consume r (consume s h) = consume s (consume r h)"
  by (cases "r = s") (auto simp: consume_def list_update_swap nth_list_update)

lemma map2_commute: "(\<And>a b. f a b = f b a) \<Longrightarrow> map2 f xs ys = map2 f ys xs"
  by (induction xs arbitrary: ys) (auto simp: zip_Cons1 split: list.splits)

lemma ind_commute: "and_ind p q = and_ind q p" "or_ind p q = or_ind q p" "xor_ind p q = xor_ind q p"
  by (simp_all add: and_ind_def or_ind_def xor_ind_def algebra_simps)

lemma binop_error_swap:
  "s < length (heap w) \<Longrightarrow> r < length (heap w) \<Longrightarrow> binop_error w s (ORef r) = binop_error w r (ORef s)"
  by (auto simp: binop_error_def)

lemma binop_spec_swap:
  assumes "s < length (heap w)" "r < length (heap w)"
    and "\<And>a b. bop a b = bop b a" "\<And>p q. ind p q = ind q p"
  shows "binop_spec bop lit ind same w s (ORef r) = binop_spec bop lit ind same w r (ORef s)"
proof (cases "binop_error w s (ORef r)")
  case None
  let ?x = "heap w ! s" and ?y = "heap w ! r"
  have n: "rb_n ?y = rb_n ?x" using binop_error_None [OF None] by simp
  have b: "map2 bop (rb_i ?x) (rb_i ?y) = map2 bop (rb_i ?y) (rb_i ?x)"
    by (rule map2_commute) (rule assms(3))
  have p: "map2 ind (rb_pr_one ?x) (rb_pr_one ?y) = map2 ind (rb_pr_one ?y) (rb_pr_one ?x)"
    by (rule map2_commute) (rule assms(4))
  have c: "consume r (consume s (heap w)) = consume s (consume r (heap w))"
    by (rule consume_commute)
  have None': "binop_error w r (ORef s) = None" using None binop_error_swap [OF assms(1,2)] by simp
  show ?thesis
    by (cases "r = s") (simp_all add: binop_spec_def None None' Let_def op_post_def n b p c)
qed (simp add: binop_spec_def binop_error_swap [OF assms(1,2)])

section \<open>Properties of the operators\<close>

text \<open>
  C1. On a state where every object satisfies the invariant, \<open>x ^ other\<close> does exactly
  what the spec's table says: the errors of \<open>binop_error\<close> with no effect, otherwise a
  new object with the XOR of the bits, probabilities \<open>1 - p\<close> where the literal bit is
  set, \<open>p(1-q) + q(1-p)\<close> for an independent buffer, all zero for \<open>x ^ x\<close>, and
  both operands consumed.
\<close>

theorem rb_xor_refines:
  "wf_world w \<Longrightarrow> rb_xor s other w = binop_spec (\<noteq>) xor_lit xor_ind (\<lambda>_. 0) w s other"
  using rb_binops_spec by blast

theorem rb_xor_refines_witness:
  "wf_world ex_world \<and>
   rb_xor 0 (ORef 0) ex_world = binop_spec (\<noteq>) xor_lit xor_ind (\<lambda>_. 0) ex_world 0 (ORef 0)"
  using wf_ex_world rb_xor_refines [OF wf_ex_world] by blast


text \<open>
  C2. On a state satisfying the invariant, \<open>x & other\<close> does what the spec's table
  says: the errors of \<open>binop_error\<close> with no effect; otherwise a new object with the
  AND of the bits, probability \<open>p\<close> where the literal bit is set and 0 where it is
  clear, \<open>p q\<close> for an independent buffer, \<open>p\<close> unchanged for \<open>x & x\<close>, and both
  operands consumed.
\<close>

theorem rb_and_refines:
  "wf_world w \<Longrightarrow> rb_and s other w = binop_spec (\<and>) and_lit and_ind id w s other"
  using rb_binops_spec by blast

theorem rb_and_refines_witness:
  "wf_world ex_world \<and>
   rb_and 0 (OBits [True]) ex_world = binop_spec (\<and>) and_lit and_ind id ex_world 0 (OBits [True])"
  using wf_ex_world rb_and_refines [OF wf_ex_world] by blast

text \<open>
  C3. On a state satisfying the invariant, \<open>x | other\<close> does what the spec's table
  says: probability 1 where the literal bit is set and \<open>p\<close> where it is clear,
  \<open>1 - (1 - p)(1 - q)\<close> for an independent buffer, \<open>p\<close> unchanged for \<open>x | x\<close>,
  the OR of the bits, both operands consumed, and the errors of \<open>binop_error\<close>
  with no effect.
\<close>

theorem rb_or_refines:
  "wf_world w \<Longrightarrow> rb_or s other w = binop_spec (\<or>) or_lit or_ind id w s other"
  using rb_binops_spec by blast

theorem rb_or_refines_witness:
  "wf_world ex_world \<and>
   rb_or 0 (OBits [False]) ex_world = binop_spec (\<or>) or_lit or_ind id ex_world 0 (OBits [False])"
  using wf_ex_world rb_or_refines [OF wf_ex_world] by blast

text \<open>
  C4. \<open>~x\<close> on a live buffer returns a new object whose bits are the negated bits of
  \<open>x\<close> and whose probabilities are \<open>1 - p\<close>, consumes \<open>x\<close>, and leaves the
  entropy unchanged.
\<close>

theorem rb_invert_correct:
  assumes "s < length (heap w)" "rb_wrapped (heap w ! s)"
  shows "let (res, w') = rb_invert s w; r = length (heap w) in
           res = Inr r \<and>
           rb_i (heap w' ! r) = map Not (rb_i (heap w ! s)) \<and>
           rb_pr_one (heap w' ! r) = map (\<lambda>p. 1 - p) (rb_pr_one (heap w ! s)) \<and>
           \<not> rb_wrapped (heap w' ! s) \<and>
           fst (rb_entropy r w') = fst (rb_entropy s w)"
  using assms
  by (simp add: rb_invert_eq op_post_def consume_def nth_append rb_entropy_eq comp_def H_min_sym)

theorem rb_invert_correct_witness:
  "0 < length (heap ex_world) \<and> rb_wrapped (heap ex_world ! 0) \<and>
   (let (res, w') = rb_invert 0 ex_world; r = length (heap ex_world) in
      res = Inr r \<and>
      rb_i (heap w' ! r) = map Not (rb_i (heap ex_world ! 0)) \<and>
      rb_pr_one (heap w' ! r) = map (\<lambda>p. 1 - p) (rb_pr_one (heap ex_world ! 0)) \<and>
      \<not> rb_wrapped (heap w' ! 0) \<and>
      fst (rb_entropy r w') = fst (rb_entropy 0 ex_world))"
proof -
  have h: "0 < length (heap ex_world)" "rb_wrapped (heap ex_world ! 0)"
    by (simp_all add: ex_world_def fresh_rb_def)
  show ?thesis using h rb_invert_correct [OF h] by blast
qed


text \<open>
  C8. \<open>x ^ x\<close> on a live buffer (one object as both operands) gives a buffer whose
  every probability is 0, hence of entropy 0, whatever the probabilities of \<open>x\<close>
  were, and consumes \<open>x\<close>.
\<close>

theorem self_xor_zero_entropy:
  assumes "wf_world w" "s < length (heap w)" "rb_wrapped (heap w ! s)"
  shows "let (res, w') = rb_xor s (ORef s) w; r = length (heap w) in
           res = Inr r \<and> rb_pr_one (heap w' ! r) = replicate (8 * rb_n (heap w ! s)) 0 \<and>
           fst (rb_entropy r w') = Inr 0 \<and> \<not> rb_wrapped (heap w' ! s)"
proof -
  have "length (rb_pr_one (heap w ! s)) = rb_n (heap w ! s) * 8"
    using wf_live [OF assms(1,2)] by simp
  moreover have "H_min 0 = 0" by (simp add: H_min_def)
  ultimately show ?thesis
    using assms
    by (simp add: rb_binop_self op_post_def consume_def nth_append rb_entropy_eq mult.commute
        sum_list_replicate)
qed

theorem self_xor_zero_entropy_witness:
  "wf_world ex_world \<and> 0 < length (heap ex_world) \<and> rb_wrapped (heap ex_world ! 0) \<and>
   (let (res, w') = rb_xor 0 (ORef 0) ex_world; r = length (heap ex_world) in
      res = Inr r \<and> rb_pr_one (heap w' ! r) = replicate (8 * rb_n (heap ex_world ! 0)) 0 \<and>
      fst (rb_entropy r w') = Inr 0 \<and> \<not> rb_wrapped (heap w' ! 0))"
proof -
  have h: "wf_world ex_world" "0 < length (heap ex_world)" "rb_wrapped (heap ex_world ! 0)"
    using wf_ex_world by (simp_all add: ex_world_def fresh_rb_def)
  show ?thesis using h self_xor_zero_entropy [OF h] by blast
qed

text \<open>
  C7. On a state satisfying the invariant, each binary operator raises exactly the
  error \<open>binop_error\<close> names (TypeError for a dangling or unsupported operand,
  RuntimeError for a consumed one, ValueError for a length mismatch), and a call that
  raises changes nothing: no object, no flag, no random byte.
\<close>

theorem binop_errors_exact:
  assumes "wf_world w"
  shows "(fst (rb_and s other w) = Inl e \<longleftrightarrow> binop_error w s other = Some e) \<and>
         (fst (rb_or s other w) = Inl e \<longleftrightarrow> binop_error w s other = Some e) \<and>
         (fst (rb_xor s other w) = Inl e \<longleftrightarrow> binop_error w s other = Some e) \<and>
         (binop_error w s other \<noteq> None \<longrightarrow>
            snd (rb_and s other w) = w \<and> snd (rb_or s other w) = w \<and> snd (rb_xor s other w) = w)"
  using rb_binops_spec [OF assms, of s other]
  by (auto simp: binop_spec_def Let_def split: option.splits)

theorem binop_errors_exact_witness:
  "wf_world ex_world \<and> binop_error ex_world 0 (OBits []) = Some ValueError \<and>
   fst (rb_and 0 (OBits []) ex_world) = Inl ValueError \<and> snd (rb_and 0 (OBits []) ex_world) = ex_world \<and>
   fst (rb_or 0 (OBits []) ex_world) = Inl ValueError \<and> snd (rb_or 0 (OBits []) ex_world) = ex_world \<and>
   fst (rb_xor 0 (OBits []) ex_world) = Inl ValueError \<and> snd (rb_xor 0 (OBits []) ex_world) = ex_world"
proof -
  have e: "binop_error ex_world 0 (OBits []) = Some ValueError"
    by (simp add: binop_error_def ex_world_def fresh_rb_def)
  show ?thesis
    using wf_ex_world e binop_errors_exact [OF wf_ex_world, of 0 "OBits []" ValueError] by simp
qed

lemma ops_preserve_wf:
  assumes "wf_world w"
  shows "wf_world (snd (rb_and s other w)) \<and> wf_world (snd (rb_or s other w)) \<and>
         wf_world (snd (rb_xor s other w)) \<and> wf_world (snd (rb_invert s w))"
proof -
  have "wf_world (snd (binop_spec (\<and>) and_lit and_ind id w s other))"
    "wf_world (snd (binop_spec (\<or>) or_lit or_ind id w s other))"
    "wf_world (snd (binop_spec (\<noteq>) xor_lit xor_ind (\<lambda>_. 0) w s other))"
    using assms by (auto intro!: wf_binop_spec simp: lit_probs ind_probs)
  then show ?thesis
    using rb_binops_spec [OF assms, of s other] wf_rb_invert [OF assms, of s] by simp
qed

text \<open>
  C14. \<open>x & x\<close> and \<open>x | x\<close> on a live buffer return a buffer with the bits and the
  probabilities of \<open>x\<close> unchanged (a value ANDed or ORed with itself is itself), not
  the product formulas that hold for independent operands.
\<close>

theorem self_and_or_keep:
  assumes "wf_world w" "s < length (heap w)" "rb_wrapped (heap w ! s)"
  shows "let r = length (heap w); (ra, wa) = rb_and s (ORef s) w; (ro, wo) = rb_or s (ORef s) w in
           ra = Inr r \<and> ro = Inr r \<and>
           rb_pr_one (heap wa ! r) = rb_pr_one (heap w ! s) \<and> rb_i (heap wa ! r) = rb_i (heap w ! s) \<and>
           rb_pr_one (heap wo ! r) = rb_pr_one (heap w ! s) \<and> rb_i (heap wo ! r) = rb_i (heap w ! s)"
  using assms by (simp add: rb_binop_self op_post_def consume_def nth_append)

theorem self_and_or_keep_witness:
  "wf_world ex_world \<and> 0 < length (heap ex_world) \<and> rb_wrapped (heap ex_world ! 0) \<and>
   (let r = length (heap ex_world); (ra, wa) = rb_and 0 (ORef 0) ex_world; (ro, wo) = rb_or 0 (ORef 0) ex_world in
      ra = Inr r \<and> ro = Inr r \<and>
      rb_pr_one (heap wa ! r) = rb_pr_one (heap ex_world ! 0) \<and> rb_i (heap wa ! r) = rb_i (heap ex_world ! 0) \<and>
      rb_pr_one (heap wo ! r) = rb_pr_one (heap ex_world ! 0) \<and> rb_i (heap wo ! r) = rb_i (heap ex_world ! 0))"
proof -
  have h: "wf_world ex_world" "0 < length (heap ex_world)" "rb_wrapped (heap ex_world ! 0)"
    using wf_ex_world by (simp_all add: ex_world_def fresh_rb_def)
  show ?thesis using h self_and_or_keep [OF h] by blast
qed

text \<open>
  C30. Operand order does not matter between two objects: on a state satisfying the
  invariant, \<open>x & y\<close>, \<open>x | y\<close> and \<open>x ^ y\<close> give the same outcome and the same state
  as \<open>y & x\<close>, \<open>y | x\<close> and \<open>y ^ x\<close>: the same error when one is consumed or the
  lengths differ, and otherwise the same new object, with both operands consumed.
\<close>

theorem binops_commute:
  assumes "wf_world w" "s < length (heap w)" "r < length (heap w)"
  shows "rb_and s (ORef r) w = rb_and r (ORef s) w \<and>
         rb_or s (ORef r) w = rb_or r (ORef s) w \<and>
         rb_xor s (ORef r) w = rb_xor r (ORef s) w"
proof -
  have "binop_spec (\<and>) and_lit and_ind id w s (ORef r) = binop_spec (\<and>) and_lit and_ind id w r (ORef s)"
    "binop_spec (\<or>) or_lit or_ind id w s (ORef r) = binop_spec (\<or>) or_lit or_ind id w r (ORef s)"
    "binop_spec (\<noteq>) xor_lit xor_ind (\<lambda>_. 0) w s (ORef r) = binop_spec (\<noteq>) xor_lit xor_ind (\<lambda>_. 0) w r (ORef s)"
    by (rule binop_spec_swap [OF assms(2,3)]; auto simp: ind_commute)+
  then show ?thesis
    using rb_binops_spec [OF assms(1), of s "ORef r"] rb_binops_spec [OF assms(1), of r "ORef s"] by simp
qed

theorem binops_commute_witness:
  "rb_and 0 (ORef 1) (snd (RandBytes 1 ex_world)) = rb_and 1 (ORef 0) (snd (RandBytes 1 ex_world)) \<and>
   rb_or 0 (ORef 1) (snd (RandBytes 1 ex_world)) = rb_or 1 (ORef 0) (snd (RandBytes 1 ex_world)) \<and>
   rb_xor 0 (ORef 1) (snd (RandBytes 1 ex_world)) = rb_xor 1 (ORef 0) (snd (RandBytes 1 ex_world))"
proof -
  have h: "wf_world (snd (RandBytes 1 ex_world))" "0 < length (heap (snd (RandBytes 1 ex_world)))"
    "1 < length (heap (snd (RandBytes 1 ex_world)))"
    by (simp_all add: RandBytes_nat [of 1, simplified] wf_world_def ex_world_def)
  show ?thesis using binops_commute [OF h] .
qed

end
