(* ===== verification/Lifecycle.thy ===== *)
theory Lifecycle
  imports RandOps
begin

text \<open>
  A run of a program using \<open>src/pyrand.py\<close>: any sequence of constructor, method and
  operator calls on the objects of the run (the API listed in the file's header
  comment, lines 1--6). A call is a value of \<open>call\<close>; \<open>exec_call\<close> dispatches it to
  the method Python's operator dispatch selects; \<open>step\<close> relates the states before and
  after one call, raising or not, and \<open>reachable\<close> holds of every state a run from
  program start can produce. The lemmas are the invariants of runs: every object
  satisfies the object invariant, an object's bits and probabilities never change after
  its construction, a consumed buffer stays consumed, and from then on \<open>len\<close> and every
  operator reject it.
\<close>

datatype call =
    New int
  | Len ref
  | Entropy ref
  | Unwrap ref
  | And ref operand
  | Or ref operand
  | Xor ref operand
  | Invert ref

fun exec_call :: "call \<Rightarrow> (world, pyval) py" where
  "exec_call (New n) = py_bind (RandBytes n) (\<lambda>r. py_return (VRef r))"
| "exec_call (Len r) = py_bind (rb_len r) (\<lambda>n. py_return (VInt n))"
| "exec_call (Entropy r) = py_bind (rb_entropy r) (\<lambda>h. py_return (VReal h))"
| "exec_call (Unwrap r) = py_bind (rb_unwrap r) (\<lambda>b. py_return (VBits b))"
| "exec_call (And r x) = py_bind (rb_and r x) (\<lambda>r'. py_return (VRef r'))"
| "exec_call (Or r x) = py_bind (rb_or r x) (\<lambda>r'. py_return (VRef r'))"
| "exec_call (Xor r x) = py_bind (rb_xor r x) (\<lambda>r'. py_return (VRef r'))"
| "exec_call (Invert r) = py_bind (rb_invert r) (\<lambda>r'. py_return (VRef r'))"

inductive step :: "world \<Rightarrow> world \<Rightarrow> bool" where
  exec: "exec_call c w = (res, w') \<Longrightarrow> step w w'"

inductive reachable :: "world \<Rightarrow> bool" where
  init: "reachable (init_world g)"
| step: "reachable w \<Longrightarrow> step w w' \<Longrightarrow> reachable w'"

inductive_cases stepE: "step w w'"

inductive_simps step_iff: "step w w'"

text \<open>How the objects of a state relate to those of a later state: none disappears,
  none changes its bits, length or probabilities, and none becomes live again.\<close>

definition evolves :: "world \<Rightarrow> world \<Rightarrow> bool" where
  "evolves w w' \<longleftrightarrow>
     length (heap w) \<le> length (heap w') \<and>
     (\<forall>r < length (heap w).
        heap w' ! r = (heap w ! r)\<lparr>rb_wrapped := rb_wrapped (heap w' ! r)\<rparr> \<and>
        (rb_wrapped (heap w' ! r) \<longrightarrow> rb_wrapped (heap w ! r)))"

lemma step_exec: "step w (snd (exec_call c w))"
  unfolding step_iff by (metis prod.collapse)

lemma step_cases: "step w w' \<Longrightarrow> \<exists>c. w' = snd (exec_call c w)"
  unfolding step_iff by (metis snd_conv)

lemma snd_exec_call:
  "snd (exec_call (New n) w) = snd (RandBytes n w)"
  "snd (exec_call (Len r) w) = snd (rb_len r w)"
  "snd (exec_call (Entropy r) w) = snd (rb_entropy r w)"
  "snd (exec_call (Unwrap r) w) = snd (rb_unwrap r w)"
  "snd (exec_call (And r x) w) = snd (rb_and r x w)"
  "snd (exec_call (Or r x) w) = snd (rb_or r x w)"
  "snd (exec_call (Xor r x) w) = snd (rb_xor r x w)"
  "snd (exec_call (Invert r) w) = snd (rb_invert r w)"
  by (simp_all add: py_bind_def py_return_def split: prod.splits sum.splits)

lemma evolves_refl [simp]: "evolves w w"
  by (simp add: evolves_def)

lemma evolves_trans: "evolves w1 w2 \<Longrightarrow> evolves w2 w3 \<Longrightarrow> evolves w1 w3"
  unfolding evolves_def
  by (metis (no_types, lifting) order.strict_trans2 order_trans randbytes.surjective
      randbytes.update_convs(1))

lemma nth_fold_consume:
  "r < length h \<Longrightarrow>
     fold consume rs h ! r = (if r \<in> set rs then (h ! r)\<lparr>rb_wrapped := False\<rparr> else h ! r)"
  by (induction rs arbitrary: h) (auto simp: consume_def nth_list_update_any)

lemma length_consume [simp]: "length (consume r h) = length h"
  by (simp add: consume_def)

lemma length_fold_consume [simp]: "length (fold consume rs h) = length h"
  by (induction rs arbitrary: h) (simp_all add: consume_def)

lemma evolves_op_post: "evolves w (op_post w rs n i pr)"
  by (auto simp: evolves_def op_post_def nth_append nth_fold_consume)

lemma evolves_update_wrapped:
  "evolves w (w\<lparr>heap := (heap w)[s := (heap w ! s)\<lparr>rb_wrapped := False\<rparr>]\<rparr>)"
  by (auto simp: evolves_def nth_list_update_any)

lemma evolves_RandBytes: "evolves w (snd (RandBytes n w))"
  by (auto simp: RandBytes_def os_urandom_def alloc_def py_bind_def evolves_def nth_append)

lemma reads_unchanged: "snd (rb_len r w) = w" "snd (rb_entropy r w) = w"
  by (cases "r < length (heap w)"; simp add: rb_len_def rb_entropy_def py_bind_def py_raise_def
      py_return_def py_lift_def split: sum.splits)+

lemma evolves_reads: "evolves w (snd (rb_len r w))" "evolves w (snd (rb_entropy r w))"
  by (simp_all add: reads_unchanged)

lemma evolves_unwrap: "evolves w (snd (rb_unwrap r w))"
proof (cases "r < length (heap w)")
  case True
  then show ?thesis by (simp add: rb_unwrap_eq evolves_update_wrapped)
qed (simp add: rb_unwrap_def py_bind_def set_wrapped_def)

lemma evolves_binops:
  assumes "wf_world w"
  shows "evolves w (snd (rb_and r x w))" "evolves w (snd (rb_or r x w))" "evolves w (snd (rb_xor r x w))"
  using rb_binops_spec [OF assms, of r x]
  by (auto simp: binop_spec_def Let_def evolves_op_post split: option.splits operand.splits)

lemma evolves_invert: "evolves w (snd (rb_invert r w))"
  by (simp add: rb_invert_eq evolves_op_post)

lemma evolves_exec: "wf_world w \<Longrightarrow> evolves w (snd (exec_call c w))"
  by (cases c) (simp_all only: snd_exec_call evolves_RandBytes evolves_reads evolves_unwrap
      evolves_binops evolves_invert)


lemma wf_exec: "wf_world w \<Longrightarrow> wf_world (snd (exec_call c w))"
proof (cases c)
  case (New n)
  assume wf: "wf_world w"
  show ?thesis
  proof (cases "n < 0")
    case False
    then obtain m where "n = int m" by (metis nat_0_le not_less)
    with New wf show ?thesis by (simp del: exec_call.simps add: snd_exec_call wf_world_def)
  qed (simp add: New wf snd_exec_call RandBytes_def os_urandom_def py_bind_def)
next
  case (Unwrap r)
  assume wf: "wf_world w"
  show ?thesis
  proof (cases "r < length (heap w)")
    case True
    with Unwrap wf show ?thesis
      by (simp del: exec_call.simps add: snd_exec_call rb_unwrap_eq wf_world_update wf_world_nth)
  qed (simp add: Unwrap wf snd_exec_call rb_unwrap_def py_bind_def set_wrapped_def)
qed (simp_all del: exec_call.simps add: snd_exec_call reads_unchanged ops_preserve_wf)

lemma steps_wf_evolves:
  "step\<^sup>*\<^sup>* w w' \<Longrightarrow> wf_world w \<Longrightarrow> wf_world w' \<and> evolves w w'"
proof (induction rule: rtranclp_induct)
  case (step v v')
  then have "wf_world v" "evolves w v" by auto
  moreover from \<open>step v v'\<close> obtain c where "v' = snd (exec_call c v)"
    by (blast dest: step_cases)
  ultimately show ?case using wf_exec evolves_exec evolves_trans by blast
qed simp

section \<open>Properties of runs\<close>

text \<open>
  C5. Every state a run can reach from program start satisfies the object invariant:
  each object has eight bits and eight probabilities per byte, every probability in
  \<open>[0, 1]\<close>, whatever the sequence of calls and whether they raised.
\<close>

theorem reachable_wf: "reachable w \<Longrightarrow> wf_world w"
proof (induction rule: reachable.induct)
  case (init g)
  show ?case by (simp add: init_world_def wf_world_def)
next
  case (step w w')
  from \<open>step w w'\<close> obtain c where "w' = snd (exec_call c w)"
    by (blast dest: step_cases)
  with step.IH show ?case by (simp add: wf_exec)
qed

theorem reachable_wf_witness:
  "reachable (snd (exec_call (New 2) (init_world (\<lambda>_. 7)))) \<and>
   wf_world (snd (exec_call (New 2) (init_world (\<lambda>_. 7))))"
proof -
  have h: "reachable (snd (exec_call (New 2) (init_world (\<lambda>_. 7))))"
    by (rule reachable.step [OF reachable.init step_exec])
  show ?thesis using h reachable_wf [OF h] by blast
qed

text \<open>
  C15. From any state satisfying the invariant, over any sequence of later calls, no
  object disappears, none changes its bits, byte length or probabilities, and none
  that is consumed becomes live again: the flag is the only attribute that changes
  after construction, and only from live to consumed.
\<close>

theorem objects_persist:
  assumes "wf_world w" "step\<^sup>*\<^sup>* w w'" "r < length (heap w)"
  shows "r < length (heap w') \<and> rb_i (heap w' ! r) = rb_i (heap w ! r) \<and>
         rb_n (heap w' ! r) = rb_n (heap w ! r) \<and> rb_pr_one (heap w' ! r) = rb_pr_one (heap w ! r) \<and>
         (rb_wrapped (heap w' ! r) \<longrightarrow> rb_wrapped (heap w ! r))"
proof -
  have "evolves w w'" using steps_wf_evolves [OF assms(2,1)] by simp
  then have "r < length (heap w')"
    and e: "heap w' ! r = (heap w ! r)\<lparr>rb_wrapped := rb_wrapped (heap w' ! r)\<rparr>"
    and "rb_wrapped (heap w' ! r) \<longrightarrow> rb_wrapped (heap w ! r)"
    using assms(3) by (auto simp: evolves_def)
  moreover have "rb_i (heap w' ! r) = rb_i (heap w ! r)" "rb_n (heap w' ! r) = rb_n (heap w ! r)"
      "rb_pr_one (heap w' ! r) = rb_pr_one (heap w ! r)"
    by (subst e; simp)+
  ultimately show ?thesis by blast
qed

theorem objects_persist_witness:
  "wf_world ex_world \<and> step\<^sup>*\<^sup>* ex_world (snd (exec_call (Unwrap 0) ex_world)) \<and> 0 < length (heap ex_world) \<and>
   0 < length (heap (snd (exec_call (Unwrap 0) ex_world))) \<and>
   rb_i (heap (snd (exec_call (Unwrap 0) ex_world)) ! 0) = rb_i (heap ex_world ! 0) \<and>
   rb_n (heap (snd (exec_call (Unwrap 0) ex_world)) ! 0) = rb_n (heap ex_world ! 0) \<and>
   rb_pr_one (heap (snd (exec_call (Unwrap 0) ex_world)) ! 0) = rb_pr_one (heap ex_world ! 0)"
proof -
  have h: "wf_world ex_world" "step\<^sup>*\<^sup>* ex_world (snd (exec_call (Unwrap 0) ex_world))"
    "0 < length (heap ex_world)"
    by (rule wf_ex_world, rule r_into_rtranclp, rule step_exec, simp add: ex_world_def)
  show ?thesis using h objects_persist [OF h] by blast
qed

text \<open>
  C9. Once a buffer is consumed, in every later state of the run \<open>len\<close>, \<open>&\<close>,
  \<open>|\<close>, \<open>^\<close> and \<open>~\<close> on it raise RuntimeError and change nothing, whether it is the
  left operand or the right operand of a live buffer.
\<close>

theorem consumed_rejected_forever:
  assumes "wf_world w" "step\<^sup>*\<^sup>* w w'" "r < length (heap w)" "\<not> rb_wrapped (heap w ! r)"
  shows "exec_call (Len r) w' = (Inl RuntimeError, w') \<and> exec_call (Invert r) w' = (Inl RuntimeError, w') \<and>
         (\<forall>x. exec_call (And r x) w' = (Inl RuntimeError, w') \<and> exec_call (Or r x) w' = (Inl RuntimeError, w') \<and>
              exec_call (Xor r x) w' = (Inl RuntimeError, w')) \<and>
         (\<forall>s < length (heap w'). exec_call (And s (ORef r)) w' = (Inl RuntimeError, w') \<and>
              exec_call (Or s (ORef r)) w' = (Inl RuntimeError, w') \<and>
              exec_call (Xor s (ORef r)) w' = (Inl RuntimeError, w'))"
proof -
  have "evolves w w'" using steps_wf_evolves [OF assms(2,1)] by simp
  then have r: "r < length (heap w')" "\<not> rb_wrapped (heap w' ! r)"
    using assms(3,4) by (auto simp: evolves_def)
  then have "binop_error w' r x = Some RuntimeError" for x
    by (simp add: binop_error_def)
  moreover have "s < length (heap w') \<Longrightarrow> binop_error w' s (ORef r) = Some RuntimeError" for s
    using r by (simp add: binop_error_def)
  ultimately show ?thesis
    using r rb_binop_error
    by (simp add: py_bind_def rb_len_def py_raise_def rb_invert_eq)
qed

theorem consumed_rejected_forever_witness:
  "wf_world (snd (rb_unwrap 0 ex_world)) \<and> step\<^sup>*\<^sup>* (snd (rb_unwrap 0 ex_world)) (snd (rb_unwrap 0 ex_world)) \<and>
   0 < length (heap (snd (rb_unwrap 0 ex_world))) \<and> \<not> rb_wrapped (heap (snd (rb_unwrap 0 ex_world)) ! 0) \<and>
   exec_call (Len 0) (snd (rb_unwrap 0 ex_world)) = (Inl RuntimeError, snd (rb_unwrap 0 ex_world))"
proof -
  have h: "wf_world (snd (rb_unwrap 0 ex_world))" "step\<^sup>*\<^sup>* (snd (rb_unwrap 0 ex_world)) (snd (rb_unwrap 0 ex_world))"
    "0 < length (heap (snd (rb_unwrap 0 ex_world)))" "\<not> rb_wrapped (heap (snd (rb_unwrap 0 ex_world)) ! 0)"
    by (simp_all add: rb_unwrap_eq ex_world_def wf_world_def fresh_rb_def wf_rb_def)
  show ?thesis using h consumed_rejected_forever [OF h] by blast
qed

end
