(* ===== verification/Otp.thy ===== *)
theory Otp
  imports Lifecycle
begin

text \<open>
  The demo driver \<open>src/otp.py\<close>: the byte-wise XOR \<open>bxor\<close>, the one-time pad
  \<open>otp\<close>, the two checks \<open>selfXor\<close> and \<open>newAnd\<close>, and \<open>main\<close>. A message is given
  by its UTF-8 encoding (\<open>msg.encode('utf-8')\<close>, a library call), and the decrypted
  bytes are printed as bytes (\<open>.decode('utf-8')\<close> is not modelled). The driver runs
  on the same state as \<open>src/pyrand.py\<close>; its \<open>assert\<close>s raise AssertionError.
\<close>

unbundle bit_operations_syntax

section \<open>The driver\<close>

text \<open>\<open>bxor(a, b)\<close> (lines 36--40), on the bytes of \<open>bytearray(a)\<close> and the items of \<open>b\<close>.\<close>

definition bxor_step :: "byte list \<Rightarrow> nat \<Rightarrow> byte list \<Rightarrow> byte list res" where
  "bxor_step b i result = ebind (py_index result i) (\<lambda>x. py_store result i (x XOR b ! i))"

definition bxor :: "byte list \<Rightarrow> byte list \<Rightarrow> byte list res" where
  "bxor a b = py_for (bxor_step b) [0..<length b] a"

text \<open>Iterating over a bit array yields its bits as the integers 0 and 1.\<close>

definition bit_items :: "bool list \<Rightarrow> byte list" where
  "bit_items bs = map of_bool bs"

definition otp :: "byte list \<Rightarrow> (world, unit) py" where
  "otp msg =
     (let m = frombytes msg in
      py_bind (RandBytes (int (length msg))) (\<lambda>key.
      py_bind (rb_entropy key) (\<lambda>h. py_bind (py_assert (h = real (length m))) (\<lambda>_.
      py_bind (rb_xor key (OBits m)) (\<lambda>c.
      py_bind (rb_entropy c) (\<lambda>h'. py_bind (py_assert (h' = real (length m))) (\<lambda>_.
      py_bind (rb_unwrap c) (\<lambda>rc.
      py_bind (rb_unwrap key) (\<lambda>rkey.
      py_bind (py_print ''Encrypted message:'' (VBits rc)) (\<lambda>_.
      py_bind (py_print ''Bytes:'' (VInt (length m))) (\<lambda>_.
      py_bind (py_lift (bxor (tobytes rc) (bit_items rkey))) (\<lambda>d.
      py_print ''Decrypted message:'' (VBytes d)))))))))))))"

definition selfXor :: "(world, unit) py" where
  "selfXor =
     py_bind (RandBytes 4) (\<lambda>i.
     py_bind (rb_xor i (ORef i)) (\<lambda>j.
     py_bind (rb_entropy j) (\<lambda>h. py_assert (h = 0))))"

text \<open>\<open>assert(k.entropy() > 24 and k.entropy() < 28)\<close>: two calls, the second only when
  the first comparison holds.\<close>

definition newAnd :: "(world, unit) py" where
  "newAnd =
     py_bind (RandBytes 8) (\<lambda>i.
     py_bind (RandBytes 8) (\<lambda>j.
     py_bind (rb_and i (ORef j)) (\<lambda>k.
     py_bind (rb_entropy k) (\<lambda>h.
       if \<not> 24 < h then py_raise AssertionError
       else py_bind (rb_entropy k) (\<lambda>h'. py_assert (h' < 28))))))"

text \<open>The UTF-8 encodings of the two messages of \<open>main\<close>.\<close>

definition msg_interesting :: "byte list" where
  "msg_interesting = map of_char ''this is interesting''"

definition msg_snowman :: "byte list" where
  "msg_snowman = [0xE2, 0x98, 0x83]"

definition main :: "(world, unit) py" where
  "main =
     py_bind (otp msg_interesting) (\<lambda>_.
     py_bind (otp msg_snowman) (\<lambda>_.
     py_bind selfXor (\<lambda>_. newAnd)))"

text \<open>Lines 42--43: \<open>if __name__ == "__main__": main()\<close>; the flag says whether the
  module runs as the main program.\<close>

definition otp_script :: "bool \<Rightarrow> (world, unit) py" where
  "otp_script is_main = (if is_main then main else py_return ())"

section \<open>bxor\<close>

lemma bxor_step_in: "i < length result \<Longrightarrow> bxor_step b i result = Inr (result[i := result ! i XOR b ! i])"
  by (simp add: bxor_step_def)

lemma bxor_ok:
  assumes "length b \<le> length a"
  shows "bxor a b = Inr (map2 (XOR) (take (length b) a) b @ drop (length b) a)"
proof -
  have "bxor a b = Inr (map (\<lambda>k. if k < length b then a ! k XOR b ! k else a ! k) [0..<length a])"
    unfolding bxor_def using assms
    by (intro py_for_pointwise_prefix) (simp add: bxor_step_in)
  also have "map (\<lambda>k. if k < length b then a ! k XOR b ! k else a ! k) [0..<length a] =
               map2 (XOR) (take (length b) a) b @ drop (length b) a"
    using assms by (intro nth_equalityI) (auto simp: nth_append min_def)
  finally show ?thesis .
qed

lemma bxor_short:
  assumes "length a < length b"
  shows "bxor a b = Inl IndexError"
proof -
  have split: "[0..<length b] = [0..<length a] @ length a # [Suc (length a)..<length b]"
  proof -
    have "[0..<length b] = [0..<length a] @ [length a..<length b]"
      using upt_add_eq_append [of 0 "length a" "length b - length a"] assms by simp
    with assms show ?thesis by (simp add: upt_conv_Cons)
  qed
  have "py_for (bxor_step b) [0..<length a] a = Inr (map (\<lambda>k. if k < length a then a ! k XOR b ! k else a ! k) [0..<length a])"
    by (intro py_for_pointwise_prefix) (simp_all add: bxor_step_in)
  then show ?thesis
    by (simp add: bxor_def split py_for_append bxor_step_def py_index_def)
qed


section \<open>otp\<close>

lemma xor_lit_half: "length m = k \<Longrightarrow> map2 xor_lit (replicate k (1/2)) m = replicate k (1/2)"
  by (induction m arbitrary: k) (auto simp: xor_lit_def)

lemma sum_H_min_half: "sum_list (map H_min (replicate k (1/2))) = real k"
  by (simp add: H_min_half sum_list_replicate)

lemma heap_op_post [simp]:
  "heap (op_post w rs n i pr) = fold consume rs (heap w) @ [\<lparr>rb_wrapped = True, rb_i = i, rb_n = n, rb_pr_one = pr\<rparr>]"
  by (simp add: op_post_def)

lemma otp_run:
  assumes wf: "wf_world w"
  shows "otp msg w =
           py_bind (py_lift (bxor (tobytes (map2 (\<noteq>) (frombytes (drawn_bytes w (length msg))) (frombytes msg)))
                                  (bit_items (frombytes (drawn_bytes w (length msg))))))
             (\<lambda>d. py_print ''Decrypted message:'' (VBytes d))
             (w\<lparr>drawn := drawn w + length msg + length msg,
                heap := heap w @
                  [(fresh_rb (drawn_bytes w (length msg)))\<lparr>rb_wrapped := False\<rparr>,
                   \<lparr>rb_wrapped = False,
                    rb_i = map2 (\<noteq>) (frombytes (drawn_bytes w (length msg))) (frombytes msg),
                    rb_n = length msg, rb_pr_one = replicate (8 * length msg) (1/2)\<rparr>],
                stdout := stdout w @
                  [(''Encrypted message:'',
                    VBits (map2 (\<noteq>) (frombytes (drawn_bytes w (length msg))) (frombytes msg))),
                   (''Bytes:'', VInt (8 * length msg))]\<rparr>)"
proof -
  let ?n = "length msg" and ?K = "drawn_bytes w (length msg)" and ?L = "length (heap w)"
  let ?w1 = "w\<lparr>drawn := drawn w + ?n, heap := heap w @ [fresh_rb ?K]\<rparr>"
  let ?c = "map2 (\<noteq>) (frombytes ?K) (frombytes msg)"
  let ?w2 = "op_post ?w1 [?L] ?n ?c (replicate (8 * ?n) (1/2))"
  have r1: "RandBytes (int ?n) w = (Inr ?L, ?w1)" by simp
  have wf1: "wf_world ?w1" using wf by (simp add: wf_world_def)
  have e1: "rb_entropy ?L ?w1 = (Inr (8 * real ?n), ?w1)"
    by (simp add: rb_entropy_eq nth_append fresh_rb_def H_min_half sum_list_replicate drawn_bytes_def)
  have x: "rb_xor ?L (OBits (frombytes msg)) ?w1 = (Inr (Suc ?L), ?w2)"
    using rb_binop_bits(3) [OF wf1, of ?L "frombytes msg"]
    by (simp add: nth_append fresh_rb_def drawn_bytes_def xor_lit_half mult.commute)
  have e2: "rb_entropy (Suc ?L) ?w2 = (Inr (8 * real ?n), ?w2)"
    by (simp add: rb_entropy_eq nth_append consume_def H_min_half sum_list_replicate)
  show ?thesis
    by (simp add: otp_def Let_def py_bind_def r1 e1 x e2 [simplified] rb_unwrap_eq nth_append consume_def py_assert_def
        py_return_def py_print_def list_update_append del: RandBytes_nat) (simp add: op_post_def fresh_rb_def)
qed

lemma length_drawn_bytes [simp]: "length (drawn_bytes w n) = n"
  by (simp add: drawn_bytes_def)

lemma length_cipher_bytes:
  "length K = length msg \<Longrightarrow> length (tobytes (map2 (\<noteq>) (frombytes K) (frombytes msg))) = length msg"
  by (rule length_tobytes_mult8) simp

lemma xor_bytes_cancel: "length k = length m \<Longrightarrow> map2 (XOR) (map2 (XOR) k m) k = (m :: byte list)"
  by (induction k m rule: list_induct2) (simp_all add: ac_simps)

text \<open>C24. \<open>selfXor\<close> runs to completion on every well-formed state: XOR of a fresh
  buffer with itself has entropy 0, so its assertion holds.\<close>

theorem selfXor_passes:
  assumes "wf_world w"
  shows "fst (selfXor w) = Inr ()"
proof -
  let ?L = "length (heap w)"
  let ?w1 = "w\<lparr>drawn := drawn w + 4, heap := heap w @ [fresh_rb (drawn_bytes w 4)]\<rparr>"
  have r1: "RandBytes 4 w = (Inr ?L, ?w1)"
    using RandBytes_nat [of 4 w] by simp
  have wf1: "wf_world ?w1" using assms by (simp add: wf_world_def)
  have x: "rb_xor ?L (ORef ?L) ?w1 = (Inr (Suc ?L),
             op_post ?w1 [?L, ?L] 4 (replicate 32 False) (replicate 32 0))"
    using rb_binop_self(3) [OF wf1, of ?L] by (simp add: nth_append fresh_rb_def)
  show ?thesis
    by (simp add: selfXor_def py_bind_def r1 x rb_entropy_eq H_min_def py_assert_def py_return_def
        consume_def nth_append sum_list_replicate
        del: RandBytes_nat)
qed

theorem selfXor_passes_witness: "fst (selfXor ex_world) = Inr ()"
  using selfXor_passes [OF wf_ex_world] .

text \<open>C23. \<open>newAnd\<close> runs to completion on every well-formed state: the AND of two fresh
  8-byte buffers has 64 bits of probability 1/4, and their min-entropy
  \<open>64 * log2(4/3)\<close> lies strictly between 24 and 28.\<close>

theorem newAnd_passes:
  assumes "wf_world w"
  shows "fst (newAnd w) = Inr ()"
proof -
  let ?L = "length (heap w)"
  let ?w1 = "w\<lparr>drawn := drawn w + 8, heap := heap w @ [fresh_rb (drawn_bytes w 8)]\<rparr>"
  let ?w2 = "?w1\<lparr>drawn := drawn ?w1 + 8, heap := heap ?w1 @ [fresh_rb (drawn_bytes ?w1 8)]\<rparr>"
  let ?k = "map2 (\<and>) (frombytes (drawn_bytes w 8)) (frombytes (drawn_bytes ?w1 8))"
  have r1: "RandBytes 8 w = (Inr ?L, ?w1)"
    using RandBytes_nat [of 8 w] by simp
  have r2: "RandBytes 8 ?w1 = (Inr (Suc ?L), ?w2)"
    using RandBytes_nat [of 8 ?w1] by simp
  have wf2: "wf_world ?w2" using assms by (simp add: wf_world_def)
  have a: "rb_and ?L (ORef (Suc ?L)) ?w2 =
             (Inr (Suc (Suc ?L)), op_post ?w2 [?L, Suc ?L] 8 ?k (replicate 64 (1/4)))"
    using rb_binop_ind(1) [OF wf2, of ?L "Suc ?L"] by (simp add: nth_append fresh_rb_def and_ind_def)
  have hq: "24 < 64 * H_min (1/4)" "64 * H_min (1/4) < 28"
    using H_min_quarter_bounds by linarith+
  show ?thesis
    by (simp add: newAnd_def py_bind_def r1 r2 a [simplified] rb_entropy_eq consume_def nth_append sum_list_replicate
        hq py_assert_def py_return_def del: RandBytes_nat)
qed

theorem newAnd_passes_witness: "fst (newAnd ex_world) = Inr ()"
  using newAnd_passes [OF wf_ex_world] .

lemma otp_bxor_short:
  "msg \<noteq> [] \<Longrightarrow> length K = length msg \<Longrightarrow>
     bxor (tobytes (map2 (\<noteq>) (frombytes K) (frombytes msg))) (bit_items (frombytes K)) = Inl IndexError"
  using length_cipher_bytes [of K msg] by (intro bxor_short) (simp add: bit_items_def)

section \<open>Properties of the driver\<close>

text \<open>C6. On every non-empty message \<open>otp\<close> prints the ciphertext bits and the bit
  count and then raises IndexError in \<open>bxor\<close>: \<open>bytearray(rc)\<close> has one entry per byte,
  but the loop enumerates the key's bits, eight per byte. The message is never
  decrypted.\<close>

theorem otp_nonempty_IndexError:
  assumes "wf_world w" and "msg \<noteq> []"
  shows "fst (otp msg w) = Inl IndexError \<and>
         stdout (snd (otp msg w)) = stdout w @
           [(''Encrypted message:'', VBits (map2 (\<noteq>) (frombytes (drawn_bytes w (length msg))) (frombytes msg))),
            (''Bytes:'', VInt (8 * length msg))]"
  using otp_bxor_short [OF assms(2), of "drawn_bytes w (length msg)"]
  by (simp add: otp_run [OF assms(1)] py_bind_def py_lift_def)

theorem otp_nonempty_IndexError_witness:
  "fst (otp msg_snowman ex_world) = Inl IndexError \<and>
   stdout (snd (otp msg_snowman ex_world)) = stdout ex_world @
     [(''Encrypted message:'', VBits (map2 (\<noteq>) (frombytes (drawn_bytes ex_world (length msg_snowman))) (frombytes msg_snowman))),
      (''Bytes:'', VInt (8 * length msg_snowman))]"
proof -
  have h: "wf_world ex_world" "msg_snowman \<noteq> []" by (simp_all add: msg_snowman_def)
  show ?thesis using otp_nonempty_IndexError [OF h] by blast
qed

text \<open>C13. \<open>main\<close> stops at its first call: \<open>otp('this is interesting')\<close> raises
  IndexError after two lines of output, so the second message, \<open>selfXor\<close> and
  \<open>newAnd\<close> never run.\<close>

theorem main_IndexError:
  assumes "wf_world w"
  shows "fst (main w) = Inl IndexError \<and>
         stdout (snd (main w)) = stdout w @
           [(''Encrypted message:'', VBits (map2 (\<noteq>) (frombytes (drawn_bytes w 19)) (frombytes msg_interesting))),
            (''Bytes:'', VInt 152)]"
proof -
  have n: "length msg_interesting = 19" "msg_interesting \<noteq> []" by (simp_all add: msg_interesting_def)
  have "fst (otp msg_interesting w) = Inl IndexError"
    using otp_bxor_short [OF n(2), of "drawn_bytes w 19"] n
    by (simp add: otp_run [OF assms] py_bind_def py_lift_def)
  then show ?thesis
    using otp_bxor_short [OF n(2), of "drawn_bytes w 19"] n
    by (simp add: main_def py_bind_Inl otp_run [OF assms] py_bind_def py_lift_def)
qed

theorem main_IndexError_witness:
  "fst (main ex_world) = Inl IndexError \<and>
   stdout (snd (main ex_world)) = stdout ex_world @
     [(''Encrypted message:'', VBits (map2 (\<noteq>) (frombytes (drawn_bytes ex_world 19)) (frombytes msg_interesting))),
      (''Bytes:'', VInt 152)]"
  using main_IndexError [OF wf_ex_world] by blast

text \<open>C10. The round trip the one-time pad is meant to have: the bytes of the ciphertext
  bits \<open>K XOR M\<close>, passed to \<open>bxor\<close> with the bytes of the key bits (rather than with
  the key's bits themselves), give back the message.\<close>

theorem otp_decrypt_roundtrip:
  assumes "length K = length msg"
  shows "bxor (tobytes (map2 (\<noteq>) (frombytes K) (frombytes msg))) (tobytes (frombytes K)) = Inr msg"
proof -
  have "tobytes (map2 (\<noteq>) (frombytes K) (frombytes msg)) = map2 (XOR) K msg"
    using tobytes_xor [of "frombytes K" "length msg" "frombytes msg"] assms by (simp add: tobytes_frombytes)
  then show ?thesis
    using assms by (simp add: tobytes_frombytes bxor_ok xor_bytes_cancel)
qed

theorem otp_decrypt_roundtrip_witness:
  "bxor (tobytes (map2 (\<noteq>) (frombytes [7, 200]) (frombytes [104, 105]))) (tobytes (frombytes [7, 200])) = Inr [104, 105]"
proof -
  have h: "length [7, 200 :: byte] = length [104, 105 :: byte]" by simp
  show ?thesis using otp_decrypt_roundtrip [OF h] .
qed

text \<open>C25. \<open>bxor(a, b)\<close> XORs the first \<open>len(b)\<close> bytes of \<open>a\<close> with the items of \<open>b\<close> and
  keeps the rest of \<open>a\<close>; when \<open>b\<close> is longer than \<open>a\<close> it raises IndexError.\<close>

theorem bxor_spec:
  "bxor a b = (if length b \<le> length a then Inr (map2 (XOR) (take (length b) a) b @ drop (length b) a)
               else Inl IndexError)"
  by (simp add: bxor_ok bxor_short)

end
