(* ===== verification/Runs.thy ===== *)
theory Runs
  imports Lifecycle Otp
begin

text \<open>
  How the parts of the program meet in runs of API calls. A returning call gives a
  value of the kind the API documents, read in the state after it, and from every
  reachable state a run of \<open>unwrap\<close> calls consumes every buffer.
\<close>

section \<open>Kinds of results\<close>

text \<open>The value a returning call gives, read in the state after it: a new live object
  for the constructor and the operators, the byte length for \<open>len\<close>, an entropy
  between 0 and the bit count, and the bits of the object for \<open>unwrap\<close>.\<close>

definition new_obj :: "world \<Rightarrow> pyval \<Rightarrow> bool" where
  "new_obj w v = (case v of VRef r \<Rightarrow> Suc r = length (heap w) \<and> rb_wrapped (heap w ! r) | _ \<Rightarrow> False)"

fun result_typed :: "world \<Rightarrow> call \<Rightarrow> pyval \<Rightarrow> bool" where
  "result_typed w (Len r) v = (case v of VInt n \<Rightarrow> n = rb_n (heap w ! r) | _ \<Rightarrow> False)"
| "result_typed w (Entropy r) v =
     (case v of VReal h \<Rightarrow> 0 \<le> h \<and> h \<le> 8 * real (rb_n (heap w ! r)) | _ \<Rightarrow> False)"
| "result_typed w (Unwrap r) v =
     (case v of VBits bs \<Rightarrow> bs = rb_i (heap w ! r) \<and> length bs = 8 * rb_n (heap w ! r) | _ \<Rightarrow> False)"
| "result_typed w c v = new_obj w v"

section \<open>Runs of call sequences\<close>

definition run_calls :: "call list \<Rightarrow> world \<Rightarrow> world" where
  "run_calls cs w = fold (\<lambda>c w. snd (exec_call c w)) cs w"

section \<open>Lemmas\<close>

subsection \<open>Outcomes of single calls\<close>

lemma fst_binop_spec:
  "fst (binop_spec bop lit ind same w s other) =
     (case binop_error w s other of Some e \<Rightarrow> Inl e | None \<Rightarrow> Inr (length (heap w)))"
  by (simp add: binop_spec_def Let_def split: option.splits)


lemma fst_unary_calls:
  "fst (RandBytes n w) = (if n < 0 then Inl ValueError else Inr (length (heap w)))"
  "fst (rb_len r w) = (if \<not> r < length (heap w) then Inl TypeError
                      else if rb_wrapped (heap w ! r) then Inr (rb_n (heap w ! r)) else Inl RuntimeError)"
  "fst (rb_entropy r w) = (if r < length (heap w) then Inr (sum_list (map H_min (rb_pr_one (heap w ! r))))
                          else Inl TypeError)"
  "fst (rb_unwrap r w) = (if r < length (heap w) then Inr (rb_i (heap w ! r)) else Inl TypeError)"
  "fst (rb_invert r w) = (if \<not> r < length (heap w) then Inl TypeError
                         else if rb_wrapped (heap w ! r) then Inr (length (heap w)) else Inl RuntimeError)"
  by (simp_all add: RandBytes_def os_urandom_def alloc_def py_bind_def rb_len_def py_monad_defs
      rb_entropy_eq rb_unwrap_eq rb_invert_eq rb_unwrap_def set_wrapped_def)
     (simp add: rb_entropy_def py_bind_def)

lemma sum_H_min_bounds:
  "\<forall>p \<in> set ps. 0 \<le> p \<and> p \<le> 1 \<Longrightarrow>
     0 \<le> sum_list (map H_min ps) \<and> sum_list (map H_min ps) \<le> real (length ps)"
proof (induction ps)
  case (Cons p ps)
  then show ?case using H_min_bounds [of p] by auto
qed simp

lemma rb_entropy_Inr:
  assumes "rb_entropy r w = (Inr h, w')"
  shows "r < length (heap w) \<and> w' = w \<and> h = sum_list (map H_min (rb_pr_one (heap w ! r)))"
proof -
  have r: "r < length (heap w)" using assms fst_unary_calls(3) [of r w] by (auto split: if_splits)
  with assms show ?thesis by (auto simp: rb_entropy_eq)
qed

lemma rb_unwrap_Inr:
  assumes "rb_unwrap r w = (Inr bs, w')"
  shows "r < length (heap w) \<and> w' = w\<lparr>heap := (heap w)[r := (heap w ! r)\<lparr>rb_wrapped := False\<rparr>]\<rparr> \<and>
         bs = rb_i (heap w ! r)"
proof -
  have r: "r < length (heap w)" using assms fst_unary_calls(4) [of r w] by (auto split: if_splits)
  with assms show ?thesis by (simp add: rb_unwrap_eq)
qed

lemma binop_spec_Inr:
  "binop_spec bop lit ind same w s other = (Inr v, w') \<Longrightarrow>
     v = length (heap w) \<and> Suc v = length (heap w') \<and> rb_wrapped (heap w' ! v)"
  using binop_error_None [of w s other]
  by (auto simp: binop_spec_def Let_def nth_append consume_def split: option.splits operand.splits if_splits)

subsection \<open>Runs\<close>

lemma reachable_steps: "step\<^sup>*\<^sup>* w w' \<Longrightarrow> reachable w \<Longrightarrow> reachable w'"
  by (induction rule: rtranclp_induct) (auto intro: reachable.step)

lemma run_calls_Cons: "run_calls (c # cs) w = run_calls cs (snd (exec_call c w))"
  by (simp add: run_calls_def)

lemma run_calls_snoc: "run_calls (cs @ [c]) w = snd (exec_call c (run_calls cs w))"
  by (simp add: run_calls_def)

lemma steps_run_calls: "step\<^sup>*\<^sup>* w (run_calls cs w)"
proof (induction cs arbitrary: w)
  case Nil
  show ?case by (simp add: run_calls_def)
next
  case (Cons c cs)
  show ?case
    using converse_rtranclp_into_rtranclp [OF step_exec Cons.IH] by (simp add: run_calls_Cons)
qed

lemma heap_unwrap_prefix:
  "m \<le> length (heap w) \<Longrightarrow>
     heap (run_calls (map Unwrap [0..<m]) w) =
       map (\<lambda>k. if k < m then (heap w ! k)\<lparr>rb_wrapped := False\<rparr> else heap w ! k) [0..<length (heap w)]"
proof (induction m)
  case 0
  show ?case by (simp add: run_calls_def map_nth)
next
  case (Suc m)
  let ?w = "run_calls (map Unwrap [0..<m]) w"
  have h: "heap ?w = map (\<lambda>k. if k < m then (heap w ! k)\<lparr>rb_wrapped := False\<rparr> else heap w ! k)
                       [0..<length (heap w)]"
    using Suc by simp
  have "m < length (heap ?w)" using Suc.prems h by simp
  then have "heap (run_calls (map Unwrap [0..<Suc m]) w) = (heap ?w)[m := (heap ?w ! m)\<lparr>rb_wrapped := False\<rparr>]"
    by (simp add: run_calls_snoc snd_exec_call rb_unwrap_eq del: exec_call.simps)
  also have "\<dots> = map (\<lambda>k. if k < Suc m then (heap w ! k)\<lparr>rb_wrapped := False\<rparr> else heap w ! k)
                     [0..<length (heap w)]"
    using Suc.prems by (intro nth_equalityI) (auto simp: h nth_list_update)
  finally show ?case .
qed

lemma heap_unwrap_all:
  "heap (run_calls (map Unwrap [0..<length (heap w)]) w) = map (\<lambda>x. x\<lparr>rb_wrapped := False\<rparr>) (heap w)"
proof -
  have "map (\<lambda>k. if k < length (heap w) then (heap w ! k)\<lparr>rb_wrapped := False\<rparr> else heap w ! k)
          [0..<length (heap w)] = map (\<lambda>x. x\<lparr>rb_wrapped := False\<rparr>) (heap w)"
    by (intro nth_equalityI) simp_all
  then show ?thesis using heap_unwrap_prefix [of "length (heap w)" w] by simp
qed

section \<open>Properties of the composition\<close>

text \<open>C27. A call that returns gives a value of the kind the API documents, read in
  the state after it: the constructor and the operators a new live object (the newest
  of the run), \<open>len\<close> the byte length, \<open>entropy\<close> a number between 0 and the bit
  count \<open>8n\<close>, and \<open>unwrap\<close> the object's \<open>8n\<close> bits.\<close>

theorem call_results_typed:
  assumes "wf_world w" and "exec_call c w = (Inr v, w')"
  shows "result_typed w' c v"
proof (cases c)
  case (New n)
  with assms(2) show ?thesis
    by (auto simp: py_bind_return_Inr new_obj_def RandBytes_def os_urandom_def alloc_def py_bind_def
        py_return_def split: if_splits)
next
  case (Len r)
  with assms(2) show ?thesis
    by (cases "r < length (heap w)")
       (auto simp: py_bind_return_Inr rb_len_def py_bind_def py_monad_defs split: if_splits)
next
  case (Entropy r)
  with assms(2) obtain h where e: "rb_entropy r w = (Inr h, w')" and v: "v = VReal h"
    by (auto simp: py_bind_return_Inr)
  note r = rb_entropy_Inr [OF e]
  have "wf_rb (heap w ! r)" using wf_world_nth [OF assms(1)] r by blast
  then show ?thesis
    using Entropy r v sum_H_min_bounds [of "rb_pr_one (heap w ! r)"] by (simp add: wf_rb_def)
next
  case (Unwrap r)
  with assms(2) obtain bs where u: "rb_unwrap r w = (Inr bs, w')" and v: "v = VBits bs"
    by (auto simp: py_bind_return_Inr)
  note r = rb_unwrap_Inr [OF u]
  have "wf_rb (heap w ! r)" using wf_world_nth [OF assms(1)] r by blast
  then show ?thesis using Unwrap r v by (simp add: wf_rb_def)
next
  case (Invert r)
  with assms(2) show ?thesis
    by (auto simp: py_bind_return_Inr rb_invert_eq new_obj_def nth_append split: if_splits)
qed (use assms rb_binops_spec [OF assms(1)] binop_spec_Inr in
     \<open>auto simp: py_bind_return_Inr new_obj_def\<close>)

theorem call_results_typed_witness:
  "result_typed (snd (exec_call (Entropy 0) ex_world)) (Entropy 0) (VReal 8)"
proof -
  have e: "exec_call (Entropy 0) ex_world = (Inr (VReal 8), ex_world)"
    by (simp add: py_bind_def py_return_def rb_entropy_eq ex_world_def fresh_rb_def H_min_half
        sum_list_replicate)
  show ?thesis using call_results_typed [OF wf_ex_world e] e by simp
qed

text \<open>C28. Consumption can always be completed: from every reachable state a run of
  calls reaches a reachable state in which every object is consumed and keeps its
  bits, length and probabilities (\<open>unwrap\<close> on each object in turn).\<close>

theorem all_buffers_consumable:
  assumes "reachable w"
  shows "\<exists>w'. step\<^sup>*\<^sup>* w w' \<and> reachable w' \<and> heap w' = map (\<lambda>x. x\<lparr>rb_wrapped := False\<rparr>) (heap w)"
  using steps_run_calls [of w] reachable_steps [OF _ assms] heap_unwrap_all [of w] by blast

theorem all_buffers_consumable_witness:
  "\<exists>w'. step\<^sup>*\<^sup>* (snd (exec_call (New 2) (init_world (\<lambda>_. 7)))) w' \<and> reachable w' \<and>
     heap w' = map (\<lambda>x. x\<lparr>rb_wrapped := False\<rparr>) (heap (snd (exec_call (New 2) (init_world (\<lambda>_. 7)))))"
proof -
  have h: "reachable (snd (exec_call (New 2) (init_world (\<lambda>_. 7))))"
    by (rule reachable.step [OF reachable.init step_exec])
  show ?thesis using all_buffers_consumable [OF h] .
qed

end
