(* ===== verification/Minimize.thy ===== *)
theory Minimize
  imports Py_Prelude
begin

text \<open>
  The boolean-minimisation example \<open>src/minimize.py\<close>. The class \<open>RB\<close> holds a byte
  length and a pyeda expression over one variable named by the object's identity;
  \<open>^\<close> builds the XOR of the two expressions. The script builds \<open>u ^ u\<close>, ORs it with
  a variable \<open>dummy\<close> and hands the result to pyeda's espresso minimiser. pyeda
  expressions are the datatype \<open>bexpr\<close> with their truth value under an assignment
  (\<open>eval_bexpr\<close>); \<open>id(self)\<close> is the object's index in the store. \<open>to_dnf\<close> is
  pyeda's conversion to disjunctive normal form. The espresso minimiser is an external
  heuristic, a parameter of \<open>minimize_main\<close> that is assumed only to return an
  equivalent expression. The lemmas show that \<open>x ^ x\<close> is constantly false and that
  the printed result of the script is equivalent to the single variable \<open>dummy\<close>.
\<close>

section \<open>Expressions\<close>

text \<open>Variable names: \<open>str(id(self))\<close> for an object, or a literal name.\<close>

datatype vname = VId nat | VName string

datatype bexpr = BVar vname | BXor bexpr bexpr | BOr bexpr bexpr

fun eval_bexpr :: "(vname \<Rightarrow> bool) \<Rightarrow> bexpr \<Rightarrow> bool" where
  "eval_bexpr env (BVar x) = env x"
| "eval_bexpr env (BXor a b) = (eval_bexpr env a \<noteq> eval_bexpr env b)"
| "eval_bexpr env (BOr a b) = (eval_bexpr env a \<or> eval_bexpr env b)"

section \<open>The class RB\<close>

record rb =
  rb_size :: nat
  rb_var :: bexpr
  rb_expr :: bexpr

type_synonym rb_store = "rb list"

text \<open>\<open>RB(n)\<close> (lines 6--9): a new object whose variable is named by its identity.\<close>

definition RB :: "nat \<Rightarrow> (rb_store, nat) py" where
  "RB n h = (let r = length h in
     (Inr r, h @ [\<lparr>rb_size = n, rb_var = BVar (VId r), rb_expr = BVar (VId r)\<rparr>]))"

text \<open>\<open>self ^ other\<close> (lines 10--13); reading an attribute of a reference that names
  no object is the TypeError of the store model.\<close>

definition rb_get :: "nat \<Rightarrow> (rb_store, rb) py" where
  "rb_get r h = (if r < length h then (Inr (h ! r), h) else (Inl TypeError, h))"

definition rb_set_expr :: "nat \<Rightarrow> bexpr \<Rightarrow> (rb_store, unit) py" where
  "rb_set_expr r e h = (if r < length h then (Inr (), h[r := (h ! r)\<lparr>rb_expr := e\<rparr>]) else (Inl TypeError, h))"

definition RB_xor :: "nat \<Rightarrow> nat \<Rightarrow> (rb_store, nat) py" where
  "RB_xor self other =
     py_bind (rb_get self) (\<lambda>x.
     py_bind (RB (rb_size x)) (\<lambda>result.
     py_bind (rb_get other) (\<lambda>y.
     py_bind (rb_set_expr result (BXor (rb_expr x) (rb_expr y))) (\<lambda>_.
     py_return result))))"

section \<open>The script\<close>

text \<open>Lines 15--19: \<open>u = RB(8); v = RB(8); w = u ^ u; fill = Or(w.expr, exprvar('dummy'))\<close>.
  The result is \<open>fill\<close>, the expression passed to \<open>to_dnf\<close> and \<open>espresso_exprs\<close>.\<close>

definition minimize_script :: "(rb_store, bexpr) py" where
  "minimize_script =
     py_bind (RB 8) (\<lambda>u.
     py_bind (RB 8) (\<lambda>v.
     py_bind (RB_xor u u) (\<lambda>w.
     py_bind (rb_get w) (\<lambda>wo.
     py_return (BOr (rb_expr wo) (BVar (VName ''dummy'')))))))"

text \<open>Line 20, \<open>fill.to_dnf()\<close>: pyeda's conversion to disjunctive normal form, a
  disjunction of terms, each a conjunction of literals (a variable and its polarity).
  The conversion pushes negation to the variables (\<open>to_dnf_pol False e\<close> is a DNF of
  \<open>Not(e)\<close>) and distributes conjunction over disjunction; pyeda further drops
  contradictory and duplicate terms, which denotes the same function.\<close>

type_synonym dnf = "(vname \<times> bool) list list"

definition eval_dnf :: "(vname \<Rightarrow> bool) \<Rightarrow> dnf \<Rightarrow> bool" where
  "eval_dnf env d = list_ex (list_all (\<lambda>(x, p). env x = p)) d"

definition dnf_and :: "dnf \<Rightarrow> dnf \<Rightarrow> dnf" where
  "dnf_and xs ys = concat (map (\<lambda>t. map (\<lambda>u. t @ u) ys) xs)"

fun to_dnf_pol :: "bool \<Rightarrow> bexpr \<Rightarrow> dnf" where
  "to_dnf_pol p (BVar x) = [[(x, p)]]"
| "to_dnf_pol p (BOr a b) =
     (if p then to_dnf_pol True a @ to_dnf_pol True b
      else dnf_and (to_dnf_pol False a) (to_dnf_pol False b))"
| "to_dnf_pol p (BXor a b) =
     (if p then dnf_and (to_dnf_pol True a) (to_dnf_pol False b) @ dnf_and (to_dnf_pol False a) (to_dnf_pol True b)
      else dnf_and (to_dnf_pol True a) (to_dnf_pol True b) @ dnf_and (to_dnf_pol False a) (to_dnf_pol False b))"

definition to_dnf :: "bexpr \<Rightarrow> dnf" where
  "to_dnf e = to_dnf_pol True e"

text \<open>Lines 15--21: the script, \<open>f1m = espresso_exprs(fill.to_dnf())\<close> and the value
  \<open>f1m[0]\<close> it prints. \<open>espresso_exprs\<close> minimises each of its arguments and returns
  the results in order; the minimiser itself is the parameter \<open>espresso\<close>.\<close>

definition minimize_main :: "(dnf \<Rightarrow> dnf) \<Rightarrow> (rb_store, dnf) py" where
  "minimize_main espresso =
     py_bind minimize_script (\<lambda>fill.
     py_bind (py_return (map espresso [to_dnf fill])) (\<lambda>f1m.
     py_lift (py_index f1m 0)))"

section \<open>Lemmas\<close>

lemma RB_xor_live:
  assumes "s < length h" "r < length h"
  shows "RB_xor s r h =
           (Inr (length h), h @ [\<lparr>rb_size = rb_size (h ! s), rb_var = BVar (VId (length h)),
                                  rb_expr = BXor (rb_expr (h ! s)) (rb_expr (h ! r))\<rparr>])"
  using assms
  by (simp add: RB_xor_def RB_def rb_get_def rb_set_expr_def py_bind_def py_return_def nth_append
      list_update_append Let_def)

lemma minimize_script_run:
  "minimize_script h = (Inr (BOr (BXor (BVar (VId (length h))) (BVar (VId (length h)))) (BVar (VName ''dummy''))),
     h @ [\<lparr>rb_size = 8, rb_var = BVar (VId (length h)), rb_expr = BVar (VId (length h))\<rparr>,
          \<lparr>rb_size = 8, rb_var = BVar (VId (Suc (length h))), rb_expr = BVar (VId (Suc (length h)))\<rparr>,
          \<lparr>rb_size = 8, rb_var = BVar (VId (Suc (Suc (length h)))),
           rb_expr = BXor (BVar (VId (length h))) (BVar (VId (length h)))\<rparr>])"
proof -
  let ?u = "\<lparr>rb_size = 8, rb_var = BVar (VId (length h)), rb_expr = BVar (VId (length h))\<rparr>"
  let ?v = "\<lparr>rb_size = 8, rb_var = BVar (VId (Suc (length h))), rb_expr = BVar (VId (Suc (length h)))\<rparr>"
  have x: "RB_xor (length h) (length h) (h @ [?u, ?v]) =
             (Inr (Suc (Suc (length h))), h @ [?u, ?v, \<lparr>rb_size = 8, rb_var = BVar (VId (Suc (Suc (length h)))),
                rb_expr = BXor (BVar (VId (length h))) (BVar (VId (length h)))\<rparr>])"
    using RB_xor_live [of "length h" "h @ [?u, ?v]" "length h"] by (simp add: nth_append)
  show ?thesis
    by (simp add: minimize_script_def RB_def py_bind_def x rb_get_def nth_append py_return_def Let_def)
qed

lemma eval_dnf_append [simp]: "eval_dnf env (xs @ ys) = (eval_dnf env xs \<or> eval_dnf env ys)"
  by (simp add: eval_dnf_def)

lemma eval_dnf_and [simp]: "eval_dnf env (dnf_and xs ys) = (eval_dnf env xs \<and> eval_dnf env ys)"
  by (auto simp: eval_dnf_def dnf_and_def list_ex_iff)

lemma eval_dnf_literal [simp]: "eval_dnf env [[(x, p)]] = (env x = p)"
  by (simp add: eval_dnf_def)

lemma eval_dnf_pol: "eval_dnf env (to_dnf_pol p e) = (eval_bexpr env e = p)"
  by (induction p e rule: to_dnf_pol.induct) auto

section \<open>Properties of the example\<close>

text \<open>C26. For a live object \<open>x\<close>, \<open>x ^ x\<close> returns a new object whose expression is
  false under every assignment.\<close>

theorem RB_xor_self_false:
  assumes "s < length h"
  shows "fst (RB_xor s s h) = Inr (length h) \<and>
         (\<forall>env. \<not> eval_bexpr env (rb_expr (snd (RB_xor s s h) ! length h)))"
  using assms by (simp add: RB_xor_live)

theorem RB_xor_self_false_witness:
  "fst (RB_xor 0 0 [\<lparr>rb_size = 8, rb_var = BVar (VId 0), rb_expr = BVar (VId 0)\<rparr>]) = Inr 1 \<and>
   (\<forall>env. \<not> eval_bexpr env (rb_expr (snd (RB_xor 0 0 [\<lparr>rb_size = 8, rb_var = BVar (VId 0), rb_expr = BVar (VId 0)\<rparr>]) ! 1)))"
proof -
  have h: "0 < length [\<lparr>rb_size = 8, rb_var = BVar (VId 0), rb_expr = BVar (VId 0)\<rparr>]" by simp
  show ?thesis using RB_xor_self_false [OF h] by simp
qed

text \<open>C29. Whatever objects exist before it, and for any minimiser that returns an
  expression equivalent to its argument, the script prints an expression equivalent
  to the single variable \<open>dummy\<close>.\<close>

theorem minimize_prints_dummy:
  assumes "\<And>d env. eval_dnf env (espresso d) = eval_dnf env d"
  shows "\<exists>out h'. minimize_main espresso h = (Inr out, h') \<and> (\<forall>env. eval_dnf env out = env (VName ''dummy''))"
  by (simp add: minimize_main_def minimize_script_run py_bind_def py_return_def py_lift_def assms
      to_dnf_def eval_dnf_pol)

theorem minimize_prints_dummy_witness:
  "\<exists>out h'. minimize_main (\<lambda>d. d) [] = (Inr out, h') \<and> (\<forall>env. eval_dnf env out = env (VName ''dummy''))"
proof -
  have h: "\<And>d env. eval_dnf env ((\<lambda>d. d) d) = eval_dnf env d" by simp
  show ?thesis using minimize_prints_dummy [OF h] .
qed

end
