(* ===== verification/Spec2Isabelle.thy ===== *)
theory Spec2Isabelle
  imports Runs Minimize
begin

text \<open>
  \<^bold>\<open>A verification development of randbox.\<close>

  \<^bold>\<open>The program.\<close> \<open>src/pyrand.py\<close> defines the class \<open>RandBytes\<close>: a buffer of
  \<open>8n\<close> random bits (\<open>_i\<close>, a big-endian \<open>bitarray\<close> filled from \<open>os.urandom(n)\<close>), its
  byte length \<open>_n\<close>, a per-bit probability of being 1 (\<open>_pr_one\<close>), and a one-shot flag
  \<open>_wrapped\<close>. Its methods are \<open>__len__\<close>, \<open>entropy\<close> (the sum of the per-bit
  \<open>min_entropy\<close>), \<open>unwrap\<close> (clears the flag, returns the bits) and the operators
  \<open>&\<close>, \<open>|\<close>, \<open>^\<close>, \<open>~\<close>, which build a new buffer whose bits are the bitwise result and
  whose probabilities follow the independence formulas, with special cases for a
  plain bit array operand and for the same object on both sides, and which clear
  the flag of their buffer operands. The module also defines \<open>shannon_entropy\<close> and
  \<open>min_entropy\<close>. \<open>src/otp.py\<close> is a demo driver: a one-time pad \<open>otp\<close>, the checks
  \<open>selfXor\<close> and \<open>newAnd\<close>, the byte-wise \<open>bxor\<close> and \<open>main\<close>. \<open>src/minimize.py\<close> uses
  the class with the pyeda library.

  \<^bold>\<open>Theories.\<close>
  \<^item> \<open>Py_Prelude\<close>: the Python execution model. Exceptions are the datatype \<open>error\<close>.
    Fallible values are \<open>error + 'a\<close>. Statements that mutate objects are a
    state-and-exception monad \<open>('s, 'a) py\<close> (\<open>py_bind\<close>, \<open>py_raise\<close>, \<open>py_assert\<close>).
    \<open>xs[k]\<close> and \<open>xs[k] = v\<close> are bounds-checked (\<open>py_index\<close>, \<open>py_store\<close>), and
    \<open>for k in range(n)\<close> is \<open>py_for\<close>, which stops at the first exception. The
    lemma \<open>py_for_pointwise\<close> turns such a loop into a \<open>map\<close>.
  \<^item> \<open>Bits\<close>: the part of the \<open>bitarray\<close> library the code calls. Bytes are
    \<open>8 word\<close>. \<open>frombytes\<close> and \<open>tobytes\<close> convert between bytes and big-endian bit
    lists. \<open>ba_and\<close>, \<open>ba_or\<close>, \<open>ba_xor\<close> raise ValueError on unequal lengths;
    \<open>ba_invert\<close> negates. The lemmas are the byte/bit conversions and bitwise XOR on
    bits versus bytes, which the \<open>Otp\<close> theorems use. The library is external: it is modelled from its documented
    behaviour. Every operation the code calls is a definition here or in \<open>Otp\<close>:
    \<open>frombytes\<close>, the byte buffer (\<open>tobytes\<close>), \<open>&\<close>, \<open>|\<close>, \<open>^\<close>, \<open>~\<close>, indexing,
    \<open>len\<close> and iteration (\<open>bit_items\<close>).
  \<^item> \<open>Entropy\<close>: \<open>shannon_entropy\<close> and \<open>min_entropy\<close> (\<open>src/pyrand.py\<close> lines 123--133),
    floats read as reals. \<open>math.log(x, 2)\<close> is \<open>math_log2\<close>, raising ValueError for
    \<open>x \<le> 0\<close>. The closed forms \<open>H_min\<close> and \<open>H_shannon\<close> are the abstract
    specification; the lemmas give the bounds and the exact error domain.
  \<^item> \<open>RandBytes\<close>: the object as the record \<open>randbytes\<close> with the four attributes. The
    interpreter state \<open>world\<close> holds the objects (\<open>heap\<close>, indexed by a reference that
    stands for Python identity), the random stream \<open>rng\<close> with the count \<open>drawn\<close>
    of bytes read (\<open>os.urandom\<close>), and the printed lines \<open>stdout\<close>. The definitions
    are \<open>RandBytes\<close> (\<open>__init__\<close>), \<open>rb_len\<close>, \<open>rb_entropy\<close> and \<open>rb_unwrap\<close>, each the
    method line by line. The invariant \<open>wf_world\<close> says every object has \<open>8 * _n\<close>
    bits and probabilities, each probability in [0, 1].
  \<^item> \<open>RandOps\<close>: \<open>rb_and\<close>, \<open>rb_or\<close>, \<open>rb_xor\<close>, \<open>rb_invert\<close> (lines 28--121),
    statement by statement. Each has the liveness check, the \<open>isinstance\<close> dispatch
    (\<open>operand\<close>), the length check, and the construction \<open>RandBytes(len(self))\<close>
    (which draws random bytes that are then overwritten, as in the code). Each loop
    is its own body definition (\<open>*_bits_step\<close>, \<open>*_rb_step\<close>), followed by the
    consumption of the operands. The abstract specification is \<open>binop_spec\<close>,
    built from the probability table of the spec (\<open>and_lit\<close> ... \<open>xor_ind\<close>) and
    its error rule \<open>binop_error\<close>. The refinement theorems say each operator equals
    \<open>binop_spec\<close> on every well-formed state.
  \<^item> \<open>Lifecycle\<close>: any sequence of API calls. \<open>call\<close> is the datatype of calls a
    client can make and \<open>exec_call\<close> runs one by the definition of that method; they
    are the harness of the run model, not a translation of source lines, and \<open>step\<close> and \<open>reachable\<close> are inductive
    relations from \<open>init_world\<close>, with \<open>stepE\<close> (\<open>inductive_cases\<close>) and \<open>step_iff\<close>
    (\<open>inductive_simps\<close>) for their use. By rule induction: the invariant holds in every
    reachable state; objects are never lost or changed (\<open>evolves\<close>); and a
    consumed buffer is rejected forever.
  \<^item> \<open>Otp\<close>: \<open>bxor\<close>, \<open>otp\<close>, \<open>selfXor\<close>, \<open>newAnd\<close>, \<open>main\<close> of \<open>src/otp.py\<close> over the
    same state. \<open>assert\<close> is \<open>py_assert\<close>, and \<open>print\<close> appends to \<open>stdout\<close>.
    \<open>bytearray(rc)\<close> of a bit array is \<open>tobytes\<close>, and iterating a bit array yields
    its bits as 0 and 1 (\<open>bit_items\<close>). \<open>otp_script\<close> is the module's
    \<open>if __name__ == "__main__"\<close> entry.
  \<^item> \<open>Minimize\<close>: the class \<open>RB\<close> of \<open>src/minimize.py\<close> and its module body. The
    object store is \<open>rb_store\<close>, and the pyeda expressions are \<open>bexpr\<close> with their
    value \<open>eval_bexpr\<close>. \<open>RB\<close> and \<open>RB_xor\<close> are the constructor and \<open>__xor__\<close>.
    \<open>minimize_script\<close> (lines 15--19) builds \<open>fill\<close>. \<open>to_dnf\<close> is pyeda's conversion
    to disjunctive normal form (\<open>dnf\<close>, valued by \<open>eval_dnf\<close>). \<open>minimize_main\<close> (lines
    15--21) returns the printed \<open>f1m[0]\<close>; the espresso minimiser is its parameter.
  \<^item> \<open>Runs\<close>: runs of API calls. \<open>result_typed\<close> is the kind of value each call
    documents, \<open>run_calls\<close> runs a list of calls, and the lemmas read off the outcome
    of each call from the refinement theorems.

  \<^bold>\<open>What is shown.\<close>
  \<^item> The four operators refine the specification, errors included. A raising call
    changes nothing.
  \<^item> Self-XOR gives entropy 0; self-AND and self-OR keep the operand.
  \<^item> The entropy functions have the stated bounds and error domain.
  \<^item> The state invariant holds in every reachable state; objects persist; a
    consumed buffer is rejected forever.
  \<^item> Operand order does not matter: \<open>x & y\<close> and \<open>y & x\<close> (and likewise \<open>|\<close>,
    \<open>^\<close>) give the same outcome and the same state.
  \<^item> A returning call gives a value of the documented kind; entropy lies between
    0 and \<open>8n\<close>.
  \<^item> From every reachable state all buffers can be consumed (liveness).
  \<^item> In the minimisation example:
    \<^item> \<open>x ^ x\<close> is constantly false;
    \<^item> for every meaning-preserving minimiser, the printed expression is equivalent
      to \<open>dummy\<close>.
  \<^item> Deviations of the code from the spec:
    \<^item> \<open>entropy\<close> and \<open>unwrap\<close> do not check the consumed flag.
    \<^item> \<open>otp\<close> raises IndexError in \<open>bxor\<close> for every non-empty message: it XORs
      bytes with bits. So \<open>main\<close> stops at its first call.
    \<^item> The spec's round trip holds when \<open>bxor\<close> is given the key's bytes.
    \<^item> Each operator draws \<open>len(self)\<close> random bytes it then overwrites, and a
      negative byte count raises ValueError; the spec covers neither.

  \<^bold>\<open>Bounds and fuel.\<close> Every loop of the program is a \<open>for\<close> over a finite
  \<open>range\<close> or list, so every definition is structural recursion and total: no fuel
  is needed, and each theorem states the outcome of a run outright.

  \<^bold>\<open>Not modelled.\<close>
  \<^item> Floating-point rounding: floats are reals, so \<open>entropy() == len(m)\<close> is exact
    equality of reals.
  \<^item> \<open>str.encode\<close>/\<open>bytes.decode\<close>: messages are given by their UTF-8 bytes, and the
    final decode is never reached.
  \<^item> The bytes \<open>os.urandom\<close> returns are an arbitrary stream \<open>rng\<close>, and theorems hold
    for every stream.
  \<^item> pyeda's espresso minimiser: an external heuristic. It is a parameter of
    \<open>minimize_main\<close>, assumed only to return an equivalent expression. pyeda's
    simplification of terms inside \<open>to_dnf\<close> is not modelled: it drops
    contradictory and duplicate terms, which denotes the same function.
  \<^item> Bit-array endianness: a bit array is a big-endian bit list, the only order the
    repository creates. bitarray's ValueError for operands of different endianness
    (after \<open>RandBytes(len(self))\<close> has drawn its bytes) is therefore not modelled.
  \<^item> A reference that names no object raises TypeError in \<open>get_obj\<close>. Python has no
    such reference; no theorem depends on that branch for objects that exist.
  \<^item> Module imports, and the \<open>bitarray\<close> operations the code never calls.
  Apart from these, every statement of the three source files is a definition of
  the development; the source lines no definition maps are imports, blank lines
  and comments.
\<close>

end
